theory Spec2Isabelle
  imports Complex_Main
begin

section \<open>Floating-point values\<close>

text \<open>
  Python and numpy floats are IEEE 754 binary64 values (doubles).  A float is modelled as
  the real number it denotes, or as one of the three special values; the two zeros are
  not distinguished.  An arithmetic operation on finite values returns the exact result
  rounded to the nearest double, a tie to the one with an even significand, and an
  infinity when the rounded result is beyond the largest double.  The special values
  follow the IEEE rules (an undefined combination is \<open>NaN\<close>, every comparison with \<open>NaN\<close>
  is false).
\<close>

datatype pyfloat = Fin real | PInf | NInf | NaN

fun is_finite :: "pyfloat \<Rightarrow> bool" where
  "is_finite (Fin a) = True"
| "is_finite PInf = False"
| "is_finite NInf = False"
| "is_finite NaN = False"

subsection \<open>Rounding to the nearest double\<close>

text \<open>The nearest natural number, a tie to the even one.\<close>

definition round_half_even :: "real \<Rightarrow> nat" where
  "round_half_even x =
     (let f = nat \<lfloor>x\<rfloor>; r = x - real f in
      if r < 1 / 2 then f else if 1 / 2 < r then f + 1 else if even f then f else f + 1)"

text \<open>
  The exponent of the binade of \<open>x\<close>: the \<open>e\<close> with \<open>2^e \<le> |x| < 2^(e+1)\<close>, and \<open>-1022\<close>
  for the subnormal numbers below \<open>2^-1022\<close>.  The doubles of that binade are the
  multiples of \<open>ulp x = 2^(e-52)\<close>.
\<close>

definition binade :: "real \<Rightarrow> int" where
  "binade x = max \<lfloor>log 2 \<bar>x\<bar>\<rfloor> (- 1022)"

definition ulp :: "real \<Rightarrow> real" where
  "ulp x = 2 powr (real_of_int (binade x) - 52)"

text \<open>The magnitude of the nearest double, were the exponent range unbounded above.\<close>

definition rmag :: "real \<Rightarrow> real" where
  "rmag x = real (round_half_even (\<bar>x\<bar> / ulp x)) * ulp x"

text \<open>The double nearest to a real number; an infinity from \<open>2^1024\<close> on.\<close>

definition rnd :: "real \<Rightarrow> pyfloat" where
  "rnd x =
     (if x = 0 then Fin 0
      else if 2 ^ 1024 \<le> rmag x then (if 0 < x then PInf else NInf)
      else Fin (if 0 < x then rmag x else - rmag x))"

text \<open>The real numbers that are doubles.\<close>

definition is_double :: "real \<Rightarrow> bool" where
  "is_double x = (rnd x = Fin x)"

subsection \<open>Arithmetic and comparisons\<close>

fun fneg :: "pyfloat \<Rightarrow> pyfloat" where
  "fneg (Fin a) = Fin (- a)"
| "fneg PInf = NInf"
| "fneg NInf = PInf"
| "fneg NaN = NaN"

fun fadd :: "pyfloat \<Rightarrow> pyfloat \<Rightarrow> pyfloat" where
  "fadd (Fin a) (Fin b) = rnd (a + b)"
| "fadd NaN _ = NaN"
| "fadd _ NaN = NaN"
| "fadd PInf NInf = NaN"
| "fadd NInf PInf = NaN"
| "fadd PInf _ = PInf"
| "fadd NInf _ = NInf"
| "fadd _ PInf = PInf"
| "fadd _ NInf = NInf"

definition fsub :: "pyfloat \<Rightarrow> pyfloat \<Rightarrow> pyfloat" where
  "fsub a b = fadd a (fneg b)"

text \<open>The sign of an infinite product; a zero factor makes it \<open>NaN\<close>.\<close>

definition inf_signed :: "bool \<Rightarrow> pyfloat" where
  "inf_signed positive = (if positive then PInf else NInf)"

fun fmul :: "pyfloat \<Rightarrow> pyfloat \<Rightarrow> pyfloat" where
  "fmul (Fin a) (Fin b) = rnd (a * b)"
| "fmul NaN _ = NaN"
| "fmul _ NaN = NaN"
| "fmul (Fin a) PInf = (if a = 0 then NaN else inf_signed (0 < a))"
| "fmul (Fin a) NInf = (if a = 0 then NaN else inf_signed (a < 0))"
| "fmul PInf (Fin b) = (if b = 0 then NaN else inf_signed (0 < b))"
| "fmul NInf (Fin b) = (if b = 0 then NaN else inf_signed (b < 0))"
| "fmul PInf PInf = PInf"
| "fmul PInf NInf = NInf"
| "fmul NInf PInf = NInf"
| "fmul NInf NInf = PInf"

text \<open>Division by a positive integer, the only division the sources perform
  (\<open>delta / div\<close> and \<open>y / div\<close> inside \<open>numpy.linspace\<close>, with \<open>div > 0\<close>; the integer is
  converted to a double without rounding, an array having fewer than \<open>2^53\<close> elements).\<close>

fun fdiv_pos :: "pyfloat \<Rightarrow> nat \<Rightarrow> pyfloat" where
  "fdiv_pos (Fin a) d = rnd (a / real d)"
| "fdiv_pos x d = x"

text \<open>The comparisons \<open><\<close> and \<open>>\<close> of Python floats.\<close>

fun flt :: "pyfloat \<Rightarrow> pyfloat \<Rightarrow> bool" where
  "flt (Fin a) (Fin b) = (a < b)"
| "flt NaN _ = False"
| "flt _ NaN = False"
| "flt _ NInf = False"
| "flt PInf _ = False"
| "flt NInf _ = True"
| "flt _ PInf = True"

definition fgt :: "pyfloat \<Rightarrow> pyfloat \<Rightarrow> bool" where
  "fgt a b = flt b a"

definition fle :: "pyfloat \<Rightarrow> pyfloat \<Rightarrow> bool" where
  "fle a b = (flt a b \<or> (a = b \<and> a \<noteq> NaN))"

section \<open>Exceptions\<close>

text \<open>
  The exceptions the modelled code can raise, by their Python class.  \<open>FormatError\<close> and
  \<open>UsageError\<close> are the two classes of the specification's error taxonomy; no statement
  of the sources constructs them.
\<close>

datatype error =
    ValueError
  | IndexError
  | StructError
  | FormatError
  | UsageError

section \<open>numpy.linspace\<close>

text \<open>
  \<open>numpy.linspace(start, stop, num)\<close> with the default \<open>endpoint=True\<close>, for scalar
  \<open>start\<close> and \<open>stop\<close>: with \<open>div = num - 1\<close> and \<open>delta = stop - start\<close>, the samples
  are \<open>arange(num) * (delta / div) + start\<close> (computed as \<open>arange(num) / div * delta\<close>
  when the step is zero), or \<open>arange(num) * delta + start\<close> when \<open>div\<close> is not positive;
  for \<open>num > 1\<close> the last sample is then overwritten by \<open>stop\<close>.  A negative \<open>num\<close>
  raises \<open>ValueError\<close>.  Every operation is one of double arithmetic; \<open>arange(num)\<close> holds
  the indices \<open>0 .. num-1\<close> as doubles.
\<close>

definition linspace_y :: "pyfloat \<Rightarrow> nat \<Rightarrow> nat \<Rightarrow> pyfloat" where
  "linspace_y delta n i =
     (let dv = n - 1 in
      if 0 < dv then
        (let step = fdiv_pos delta dv in
         if step = Fin 0 then fmul (fdiv_pos (Fin (real i)) dv) delta
         else fmul (Fin (real i)) step)
      else fmul (Fin (real i)) delta)"

definition linspace_vals :: "pyfloat \<Rightarrow> pyfloat \<Rightarrow> nat \<Rightarrow> pyfloat list" where
  "linspace_vals start stop n =
     (let delta = fsub stop start;
          y = map (\<lambda>i. fadd (linspace_y delta n i) start) [0..<n]
      in if 1 < n then y[n - 1 := stop] else y)"

definition linspace :: "pyfloat \<Rightarrow> pyfloat \<Rightarrow> int \<Rightarrow> error + pyfloat list" where
  "linspace start stop num =
     (if num < 0 then Inl ValueError else Inr (linspace_vals start stop (nat num)))"

section \<open>The corner-based generator (genXYZ.py)\<close>

text \<open>
  A four-dimensional numpy array: its shape and its entries.  Only entries inside the
  shape are ever read.
\<close>

record ndarray4 =
  shape :: "nat \<times> nat \<times> nat \<times> nat"
  item :: "nat \<Rightarrow> nat \<Rightarrow> nat \<Rightarrow> nat \<Rightarrow> pyfloat"

definition np_zeros4 :: "nat \<Rightarrow> nat \<Rightarrow> nat \<Rightarrow> nat \<Rightarrow> ndarray4" where
  "np_zeros4 n0 n1 n2 n3 = \<lparr> shape = (n0, n1, n2, n3), item = (\<lambda>_ _ _ _. Fin 0) \<rparr>"

text \<open>The slice assignment \<open>points[i,:,k,idim] = edge_y\<close>.\<close>

definition set_row :: "ndarray4 \<Rightarrow> nat \<Rightarrow> nat \<Rightarrow> nat \<Rightarrow> pyfloat list \<Rightarrow> ndarray4" where
  "set_row P i k idim edge_y =
     P \<lparr> item := (\<lambda>i' j' k' d'.
            if i' = i \<and> k' = k \<and> d' = idim \<and> j' < length edge_y then edge_y ! j'
            else item P i' j' k' d') \<rparr>"

text \<open>
  \<open>corners\<close> is an array of rows of coordinates (``needs to be 8 x 3'').  The body reads
  \<open>corners[r][idim]\<close> for every \<open>r < 8\<close> and \<open>idim < 3\<close>; a row or a coordinate that is
  missing raises \<open>IndexError\<close>.
\<close>

definition corners_in_range :: "pyfloat list list \<Rightarrow> bool" where
  "corners_in_range corners =
     (8 \<le> length corners \<and> list_all (\<lambda>row. 3 \<le> length row) (take 8 corners))"

text \<open>The body of \<open>for i in range(nx)\<close>.\<close>

definition block_i_step ::
  "pyfloat list \<Rightarrow> pyfloat list \<Rightarrow> nat \<Rightarrow> nat \<Rightarrow> nat \<Rightarrow> nat \<Rightarrow> ndarray4 \<Rightarrow> ndarray4" where
  "block_i_step edge_yMin edge_yMax ny idim k i points =
     (let edge_y = linspace_vals (edge_yMin ! i) (edge_yMax ! i) ny
      in set_row points i k idim edge_y)"

text \<open>The body of \<open>for k in range(nz)\<close>.\<close>

definition block_k_step ::
  "pyfloat list \<Rightarrow> pyfloat list \<Rightarrow> pyfloat list \<Rightarrow> pyfloat list \<Rightarrow>
   nat \<Rightarrow> nat \<Rightarrow> nat \<Rightarrow> nat \<Rightarrow> ndarray4 \<Rightarrow> ndarray4" where
  "block_k_step edge_yMin_xMin edge_yMin_xMax edge_yMax_xMin edge_yMax_xMax nx ny idim k points =
     (let edge_yMin = linspace_vals (edge_yMin_xMin ! k) (edge_yMin_xMax ! k) nx;
          edge_yMax = linspace_vals (edge_yMax_xMin ! k) (edge_yMax_xMax ! k) nx
      in fold (block_i_step edge_yMin edge_yMax ny idim k) [0..<nx] points)"

text \<open>The body of \<open>for idim in range(3)\<close>.\<close>

definition block_idim_step ::
  "pyfloat list list \<Rightarrow> nat \<Rightarrow> nat \<Rightarrow> nat \<Rightarrow> nat \<Rightarrow> ndarray4 \<Rightarrow> ndarray4" where
  "block_idim_step corners nx ny nz idim points =
     (let edge_yMin_xMin = linspace_vals (corners ! 0 ! idim) (corners ! 3 ! idim) nz;
          edge_yMin_xMax = linspace_vals (corners ! 1 ! idim) (corners ! 2 ! idim) nz;
          edge_yMax_xMin = linspace_vals (corners ! 4 ! idim) (corners ! 7 ! idim) nz;
          edge_yMax_xMax = linspace_vals (corners ! 5 ! idim) (corners ! 6 ! idim) nz
      in fold (block_k_step edge_yMin_xMin edge_yMin_xMax edge_yMax_xMin edge_yMax_xMax
                 nx ny idim) [0..<nz] points)"

text \<open>
  \<open>returnBlockPoints\<close>.  \<open>np.zeros([nx,ny,nz,3])\<close> raises \<open>ValueError\<close> for a negative
  dimension; after it every \<open>linspace\<close> call has a non-negative count and cannot raise.
\<close>

definition returnBlockPoints ::
  "pyfloat list list \<Rightarrow> int \<Rightarrow> int \<Rightarrow> int \<Rightarrow> error + ndarray4" where
  "returnBlockPoints corners nx ny nz =
     (if nx < 0 \<or> ny < 0 \<or> nz < 0 then Inl ValueError
      else if \<not> corners_in_range corners then Inl IndexError
      else Inr (fold (block_idim_step corners (nat nx) (nat ny) (nat nz)) [0..<3]
                  (np_zeros4 (nat nx) (nat ny) (nat nz) 3)))"



text \<open>
  The value the three nested interpolations store at index \<open>(i, j, k, idim)\<close>: the Z edges
  first, then X between them, then Y.
\<close>

definition block_value ::
  "pyfloat list list \<Rightarrow> nat \<Rightarrow> nat \<Rightarrow> nat \<Rightarrow> nat \<Rightarrow> nat \<Rightarrow> nat \<Rightarrow> nat \<Rightarrow> pyfloat" where
  "block_value c nx ny nz i j k d =
     linspace_vals
       (linspace_vals (linspace_vals (c ! 0 ! d) (c ! 3 ! d) nz ! k)
                      (linspace_vals (c ! 1 ! d) (c ! 2 ! d) nz ! k) nx ! i)
       (linspace_vals (linspace_vals (c ! 4 ! d) (c ! 7 ! d) nz ! k)
                      (linspace_vals (c ! 5 ! d) (c ! 6 ! d) nz ! k) nx ! i) ny ! j"

section \<open>Text: characters, lines, tokens, numbers\<close>

text \<open>
  A file is its sequence of bytes, a \<open>string\<close>.  Text mode is taken to decode one byte
  to one character (exact for ASCII content), with universal newlines: a line feed, a
  carriage return followed by a line feed, and a lone carriage return each end a line
  and are read as a line feed.
\<close>

definition newline :: char where
  "newline = CHR 0x0A"

definition carriage_return :: char where
  "carriage_return = CHR 0x0D"

text \<open>The characters below 256 for which \<open>str.isspace\<close> holds.\<close>

definition is_space :: "char \<Rightarrow> bool" where
  "is_space c = (c \<in> set [CHR 0x09, CHR 0x0A, CHR 0x0B, CHR 0x0C, CHR 0x0D,
                           CHR 0x1C, CHR 0x1D, CHR 0x1E, CHR 0x1F, CHR 0x20,
                           CHR 0x85, CHR 0xA0])"

text \<open>\<open>str.strip()\<close>.\<close>

definition strip :: "string \<Rightarrow> string" where
  "strip s = rev (dropWhile is_space (rev (dropWhile is_space s)))"

text \<open>\<open>str.split()\<close>: the maximal runs of non-space characters; \<open>cur\<close> is the run
  being read, reversed.\<close>

fun split_aux :: "string \<Rightarrow> string \<Rightarrow> string list" where
  "split_aux cur [] = (if cur = [] then [] else [rev cur])"
| "split_aux cur (c # cs) =
     (if is_space c then (if cur = [] then split_aux [] cs else rev cur # split_aux [] cs)
      else split_aux (c # cur) cs)"

definition split :: "string \<Rightarrow> string list" where
  "split s = split_aux [] s"

text \<open>\<open>str.startswith\<close>.\<close>

definition startswith :: "string \<Rightarrow> string \<Rightarrow> bool" where
  "startswith s p = (take (length p) s = p)"

text \<open>
  The lines a text-mode file yields, each with its terminator read as a line feed; a
  last line without terminator is yielded as it is.  \<open>cur\<close> is the line being read,
  reversed; \<open>after_cr\<close> says that the previous character was a carriage return, whose
  following line feed belongs to the same terminator.
\<close>

fun text_lines_aux :: "string \<Rightarrow> bool \<Rightarrow> string \<Rightarrow> string list" where
  "text_lines_aux cur after_cr [] = (if cur = [] then [] else [rev cur])"
| "text_lines_aux cur after_cr (c # cs) =
     (if c = newline then
        (if after_cr then text_lines_aux cur False cs
         else rev (newline # cur) # text_lines_aux [] False cs)
      else if c = carriage_return then rev (newline # cur) # text_lines_aux [] True cs
      else text_lines_aux (c # cur) False cs)"

definition text_lines :: "string \<Rightarrow> string list" where
  "text_lines s = text_lines_aux [] False s"

text \<open>\<open>readline()\<close> of a binary-mode file at position 0: up to and including the first
  line feed.\<close>

fun readline_bytes :: "string \<Rightarrow> string" where
  "readline_bytes [] = []"
| "readline_bytes (c # cs) = (if c = newline then [c] else c # readline_bytes cs)"

subsection \<open>Decimal digits and integers\<close>

definition is_digit :: "char \<Rightarrow> bool" where
  "is_digit c = (c \<in> set ''0123456789'')"

definition digit_val :: "char \<Rightarrow> nat" where
  "digit_val c = of_char c - 48"

definition digit_char :: "nat \<Rightarrow> char" where
  "digit_char n = ''0123456789'' ! n"

definition digits_val :: "string \<Rightarrow> nat" where
  "digits_val ds = foldl (\<lambda>a c. 10 * a + digit_val c) 0 ds"

text \<open>The decimal numeral of a natural number, as \<open>%d\<close> and \<open>str\<close> print it.\<close>

function show_nat :: "nat \<Rightarrow> string" where
  "show_nat n = (if n < 10 then [digit_char n] else show_nat (n div 10) @ [digit_char (n mod 10)])"
  by pat_completeness auto
termination
  by (relation "measure id") auto

declare show_nat.simps [simp del]

definition show_int :: "int \<Rightarrow> string" where
  "show_int i = (if i < 0 then CHR ''-'' # show_nat (nat (- i)) else show_nat (nat i))"

text \<open>
  The digit groups of Python numeric literals: a digit, then digits each optionally
  preceded by one underscore.  The result is the digits without the underscores.
\<close>

fun underscores_ok :: "string \<Rightarrow> bool" where
  "underscores_ok [] = True"
| "underscores_ok [c] = is_digit c"
| "underscores_ok (c # d # cs) =
     (if c = CHR ''_'' then is_digit d \<and> underscores_ok (d # cs)
      else is_digit c \<and> underscores_ok (d # cs))"

definition digitpart :: "string \<Rightarrow> string option" where
  "digitpart s =
     (if s \<noteq> [] \<and> is_digit (hd s) \<and> underscores_ok s then Some (filter is_digit s) else None)"

text \<open>An optional sign: the sign read (\<open>True\<close> for minus) and the rest.\<close>

fun split_sign :: "string \<Rightarrow> bool \<times> string" where
  "split_sign [] = (False, [])"
| "split_sign (c # cs) =
     (if c = CHR ''-'' then (True, cs) else if c = CHR ''+'' then (False, cs)
      else (False, c # cs))"

text \<open>\<open>int(s)\<close> in base 10; \<open>None\<close> stands for \<open>ValueError\<close>.\<close>

definition py_int :: "string \<Rightarrow> int option" where
  "py_int s =
     (let (neg, body) = split_sign (strip s) in
      case digitpart body of
        None \<Rightarrow> None
      | Some ds \<Rightarrow> Some (if neg then - int (digits_val ds) else int (digits_val ds)))"

subsection \<open>Floats as text\<close>

text \<open>Lower case for the ASCII letters, as the comparison with \<open>inf\<close> and \<open>nan\<close>
  ignores their case.\<close>

definition lower_char :: "char \<Rightarrow> char" where
  "lower_char c =
     (case map_of (zip ''ABCDEFGHIJKLMNOPQRSTUVWXYZ'' ''abcdefghijklmnopqrstuvwxyz'') c of
        None \<Rightarrow> c
      | Some l \<Rightarrow> l)"

text \<open>The part of a string before the first character satisfying \<open>P\<close>, and the part
  after it when there is one.\<close>

definition split_at :: "(char \<Rightarrow> bool) \<Rightarrow> string \<Rightarrow> string \<times> string option" where
  "split_at P s =
     (case dropWhile (\<lambda>c. \<not> P c) s of
        [] \<Rightarrow> (s, None)
      | _ # rest \<Rightarrow> (takeWhile (\<lambda>c. \<not> P c) s, Some rest))"

text \<open>The number before the exponent: digits, optionally a point and more digits, or
  a point and digits; returned as the digits before and after the point.\<close>

definition float_number :: "string \<Rightarrow> (string \<times> string) option" where
  "float_number s =
     (case split_at (\<lambda>c. c = CHR ''.'') s of
        (ip, None) \<Rightarrow> (case digitpart ip of None \<Rightarrow> None | Some ds \<Rightarrow> Some (ds, []))
      | (ip, Some fp) \<Rightarrow>
          (if ip = [] then (case digitpart fp of None \<Rightarrow> None | Some fs \<Rightarrow> Some ([], fs))
           else case digitpart ip of
                  None \<Rightarrow> None
                | Some ds \<Rightarrow>
                    (if fp = [] then Some (ds, [])
                     else case digitpart fp of None \<Rightarrow> None | Some fs \<Rightarrow> Some (ds, fs))))"

text \<open>The exponent after its letter: an optional sign and digits.\<close>

definition float_exponent :: "string \<Rightarrow> int option" where
  "float_exponent s =
     (let (neg, body) = split_sign s in
      case digitpart body of
        None \<Rightarrow> None
      | Some ds \<Rightarrow> Some (if neg then - int (digits_val ds) else int (digits_val ds)))"

definition pow10 :: "int \<Rightarrow> real" where
  "pow10 e = (if 0 \<le> e then 10 ^ nat e else 1 / 10 ^ nat (- e))"

definition float_magnitude :: "string \<Rightarrow> real option" where
  "float_magnitude s =
     (case split_at (\<lambda>c. c = CHR ''e'' \<or> c = CHR ''E'') s of
        (m, ex) \<Rightarrow>
          (case float_number m of
             None \<Rightarrow> None
           | Some (ds, fs) \<Rightarrow>
               (let v = real (digits_val ds) + real (digits_val fs) / 10 ^ length fs in
                case ex of
                  None \<Rightarrow> Some v
                | Some es \<Rightarrow>
                    (case float_exponent es of None \<Rightarrow> None | Some e \<Rightarrow> Some (v * pow10 e)))))"

text \<open>
  \<open>float(s)\<close>, following the grammar of the Python reference (surrounding whitespace,
  an optional sign, then \<open>inf\<close>, \<open>infinity\<close> or \<open>nan\<close> in any case, or a decimal number
  with optional fraction and exponent); \<open>None\<close> stands for \<open>ValueError\<close>.  The value of a
  decimal number is the double nearest to it.
\<close>

definition py_float :: "string \<Rightarrow> pyfloat option" where
  "py_float s =
     (let (neg, body) = split_sign (strip s);
          low = map lower_char body
      in if low = ''inf'' \<or> low = ''infinity'' then Some (if neg then NInf else PInf)
         else if low = ''nan'' then Some NaN
         else case float_magnitude body of
                None \<Rightarrow> None
              | Some v \<Rightarrow> Some (rnd (if neg then - v else v)))"

definition pad6 :: "string \<Rightarrow> string" where
  "pad6 s = replicate (6 - length s) CHR ''0'' @ s"

text \<open>
  \<open>'%f' % x\<close> and \<open>f"{x:.6f}"\<close>: six decimals, the value rounded to the nearest
  multiple of \<open>10^-6\<close>, a tie to the even one.
\<close>

fun format_f :: "pyfloat \<Rightarrow> string" where
  "format_f (Fin x) =
     (let q = round_half_even (\<bar>x\<bar> * 1000000) in
      (if x < 0 then ''-'' else []) @ show_nat (q div 1000000) @ ''.'' @
      pad6 (show_nat (q mod 1000000)))"
| "format_f PInf = ''inf''"
| "format_f NInf = ''-inf''"
| "format_f NaN = ''nan''"

text \<open>\<open>sep.join(xs)\<close>.\<close>

fun join :: "string \<Rightarrow> string list \<Rightarrow> string" where
  "join sep [] = []"
| "join sep [x] = x"
| "join sep (x # y # ys) = x @ sep @ join sep (y # ys)"

section \<open>The bounds reader (generate_ffd_offset.py)\<close>

type_synonym point3 = "pyfloat \<times> pyfloat \<times> pyfloat"

text \<open>
  The built-in \<open>min(a, b)\<close> and \<open>max(a, b)\<close>: the first argument is kept unless the
  second is strictly smaller (larger).
\<close>

definition py_min :: "pyfloat \<Rightarrow> pyfloat \<Rightarrow> pyfloat" where
  "py_min a b = (if flt b a then b else a)"

definition py_max :: "pyfloat \<Rightarrow> pyfloat \<Rightarrow> pyfloat" where
  "py_max a b = (if fgt b a then b else a)"

text \<open>The six running bounds, as the pair of points that is returned at the end:
  \<open>((min_x, min_y, min_z), (max_x, max_y, max_z))\<close>.\<close>

definition initial_bounds :: "point3 \<times> point3" where
  "initial_bounds = ((PInf, PInf, PInf), (NInf, NInf, NInf))"

fun update_bounds :: "point3 \<times> point3 \<Rightarrow> point3 \<Rightarrow> point3 \<times> point3" where
  "update_bounds ((min_x, min_y, min_z), (max_x, max_y, max_z)) (x, y, z) =
     ((py_min min_x x, py_min min_y y, py_min min_z z),
      (py_max max_x x, py_max max_y y, py_max max_z z))"

subsection \<open>Format detection\<close>

definition is_ascii_bytes :: "string \<Rightarrow> bool" where
  "is_ascii_bytes s = list_all (\<lambda>c. of_char c < (128::nat)) s"

text \<open>\<open>is_ascii_stl\<close>: the first 80 bytes start with \<open>solid\<close>, and the first line
  decodes as ASCII and, stripped, starts with \<open>solid\<close>.  A failed decoding is caught and
  answered \<open>False\<close>.\<close>

definition is_ascii_stl :: "string \<Rightarrow> bool" where
  "is_ascii_stl file =
     (let header = take 80 file in
      if startswith header ''solid'' then
        (let line = readline_bytes file in
         if is_ascii_bytes line then startswith (strip line) ''solid'' else False)
      else False)"

subsection \<open>The text encoding\<close>

text \<open>The body of \<open>for line in f\<close>.\<close>

definition ascii_line_step :: "string \<Rightarrow> point3 \<times> point3 \<Rightarrow> error + point3 \<times> point3" where
  "ascii_line_step line b =
     (let stripped = strip line in
      if startswith stripped ''vertex'' then
        (let parts = split stripped in
         if length parts = 4 then
           (case py_float (parts ! 1) of
              None \<Rightarrow> Inl ValueError
            | Some x \<Rightarrow>
                (case py_float (parts ! 2) of
                   None \<Rightarrow> Inl ValueError
                 | Some y \<Rightarrow>
                     (case py_float (parts ! 3) of
                        None \<Rightarrow> Inl ValueError
                      | Some z \<Rightarrow> Inr (update_bounds b (x, y, z)))))
         else Inr b)
      else Inr b)"

fun ascii_lines_loop :: "string list \<Rightarrow> point3 \<times> point3 \<Rightarrow> error + point3 \<times> point3" where
  "ascii_lines_loop [] b = Inr b"
| "ascii_lines_loop (line # rest) b =
     (case ascii_line_step line b of
        Inl e \<Rightarrow> Inl e
      | Inr b' \<Rightarrow> ascii_lines_loop rest b')"

subsection \<open>The binary encoding\<close>

text \<open>The little-endian value of a byte string.\<close>

definition le_nat :: "string \<Rightarrow> nat" where
  "le_nat s = foldr (\<lambda>c a. of_char c + 256 * a) s 0"

text \<open>\<open>struct.unpack('I', b)\<close>: exactly four bytes, else \<open>struct.error\<close>.\<close>

definition unpack_I :: "string \<Rightarrow> error + nat" where
  "unpack_I b = (if length b = 4 then Inr (le_nat b) else Inl StructError)"

text \<open>The value of an IEEE 754 binary32 bit pattern (1 sign bit, 8 exponent bits, 23
  fraction bits).\<close>

definition decode_f32 :: "nat \<Rightarrow> pyfloat" where
  "decode_f32 w =
     (let negative = (w div 2 ^ 31 = 1);
          e = (w div 2 ^ 23) mod 256;
          m = w mod 2 ^ 23;
          s = (if negative then - 1 else 1)
      in if e = 255 then (if m = 0 then (if negative then NInf else PInf) else NaN)
         else if e = 0 then Fin (s * real m / 2 ^ 149)
         else Fin (s * real (2 ^ 23 + m) * 2 ^ e / 2 ^ 150))"

text \<open>\<open>struct.unpack('fff', b)\<close>: exactly twelve bytes, else \<open>struct.error\<close>.\<close>

definition unpack_fff :: "string \<Rightarrow> error + point3" where
  "unpack_fff b =
     (if length b = 12
      then Inr (decode_f32 (le_nat (take 4 b)), decode_f32 (le_nat (take 4 (drop 4 b))),
                decode_f32 (le_nat (take 4 (drop 8 b))))
      else Inl StructError)"

text \<open>
  The file object is the bytes not yet read: \<open>f.read(n)\<close> returns \<open>take n f\<close> (fewer
  than \<open>n\<close> bytes at the end of the file) and leaves \<open>drop n f\<close>.

  \<open>for j in range(3)\<close>, with the number of vertices still to read.
\<close>

fun read_vertices ::
  "nat \<Rightarrow> string \<Rightarrow> point3 \<times> point3 \<Rightarrow> error + string \<times> point3 \<times> point3" where
  "read_vertices 0 f b = Inr (f, b)"
| "read_vertices (Suc n) f b =
     (case unpack_fff (take 12 f) of
        Inl e \<Rightarrow> Inl e
      | Inr v \<Rightarrow> read_vertices n (drop 12 f) (update_bounds b v))"

text \<open>\<open>for i in range(num_triangles)\<close>, with the number of triangles still to read:
  the normal is skipped, three vertices are read, the attribute is skipped.\<close>

fun read_triangles :: "nat \<Rightarrow> string \<Rightarrow> point3 \<times> point3 \<Rightarrow> error + point3 \<times> point3" where
  "read_triangles 0 f b = Inr b"
| "read_triangles (Suc n) f b =
     (case read_vertices (Suc (Suc (Suc 0))) (drop 12 f) b of
        Inl e \<Rightarrow> Inl e
      | Inr (f', b') \<Rightarrow> read_triangles n (drop 2 f') b')"

definition binary_bounds :: "string \<Rightarrow> error + point3 \<times> point3" where
  "binary_bounds file =
     (let f = drop 80 file in
      case unpack_I (take 4 f) of
        Inl e \<Rightarrow> Inl e
      | Inr num_triangles \<Rightarrow> read_triangles num_triangles (drop 4 f) initial_bounds)"

text \<open>\<open>get_stl_bounds\<close>, on the content of the file.\<close>

definition get_stl_bounds :: "string \<Rightarrow> error + point3 \<times> point3" where
  "get_stl_bounds stl_file =
     (if is_ascii_stl stl_file then ascii_lines_loop (text_lines stl_file) initial_bounds
      else binary_bounds stl_file)"

section \<open>The offset-box generator (generate_ffd_offset.py)\<close>

text \<open>The override of the first coordinate of a corner (\<open>x_start\<close> for the min corner,
  \<open>x_end\<close> for the max corner); \<open>None\<close> leaves the corner as it is.\<close>

definition override_x :: "point3 \<Rightarrow> pyfloat option \<Rightarrow> point3" where
  "override_x p x =
     (case x of None \<Rightarrow> p | Some v \<Rightarrow> (v, fst (snd p), snd (snd p)))"

record ffd_box =
  x_min :: pyfloat
  x_max :: pyfloat
  y_min :: pyfloat
  y_max :: pyfloat
  z_min :: pyfloat
  z_max :: pyfloat

text \<open>The box with offsets, after the overrides.\<close>

definition ffd_box_bounds ::
  "point3 \<Rightarrow> point3 \<Rightarrow> pyfloat \<Rightarrow> pyfloat \<Rightarrow> pyfloat \<Rightarrow> pyfloat option \<Rightarrow> pyfloat option \<Rightarrow>
   ffd_box" where
  "ffd_box_bounds min_point0 max_point0 offset_x offset_y offset_z x_start x_end =
     (let min_point = override_x min_point0 x_start;
          max_point = override_x max_point0 x_end
      in \<lparr> x_min = fsub (fst min_point) offset_x,
           x_max = fadd (fst max_point) offset_x,
           y_min = fsub (fst (snd min_point)) offset_y,
           y_max = fadd (fst (snd max_point)) offset_y,
           z_min = fsub (snd (snd min_point)) offset_z,
           z_max = fadd (snd (snd max_point)) offset_z \<rparr>)"

text \<open>The three coordinate arrays \<open>x_coords\<close>, \<open>y_coords\<close>, \<open>z_coords\<close>.\<close>

definition ffd_coords ::
  "ffd_box \<Rightarrow> int \<Rightarrow> int \<Rightarrow> int \<Rightarrow> error + pyfloat list \<times> pyfloat list \<times> pyfloat list" where
  "ffd_coords b nx ny nz =
     (case linspace (x_min b) (x_max b) nx of
        Inl e \<Rightarrow> Inl e
      | Inr x_coords \<Rightarrow>
          (case linspace (y_min b) (y_max b) ny of
             Inl e \<Rightarrow> Inl e
           | Inr y_coords \<Rightarrow>
               (case linspace (z_min b) (z_max b) nz of
                  Inl e \<Rightarrow> Inl e
                | Inr z_coords \<Rightarrow> Inr (x_coords, y_coords, z_coords))))"

text \<open>
  The three nested loops \<open>for k in range(nz): for j in range(ny): for i in range(nx)\<close>,
  collecting \<open>f i j k\<close> in the order of the iterations.
\<close>

definition flatten_kji :: "nat \<Rightarrow> nat \<Rightarrow> nat \<Rightarrow> (nat \<Rightarrow> nat \<Rightarrow> nat \<Rightarrow> 'a) \<Rightarrow> 'a list" where
  "flatten_kji nx ny nz f =
     concat (map (\<lambda>k. concat (map (\<lambda>j. map (\<lambda>i. f i j k) [0..<nx]) [0..<ny])) [0..<nz])"

definition x_list :: "nat \<Rightarrow> nat \<Rightarrow> nat \<Rightarrow> pyfloat list \<Rightarrow> string list" where
  "x_list nx ny nz x_coords = flatten_kji nx ny nz (\<lambda>i j k. format_f (x_coords ! i))"

definition y_list :: "nat \<Rightarrow> nat \<Rightarrow> nat \<Rightarrow> pyfloat list \<Rightarrow> string list" where
  "y_list nx ny nz y_coords = flatten_kji nx ny nz (\<lambda>i j k. format_f (y_coords ! j))"

definition z_list :: "nat \<Rightarrow> nat \<Rightarrow> nat \<Rightarrow> pyfloat list \<Rightarrow> string list" where
  "z_list nx ny nz z_coords = flatten_kji nx ny nz (\<lambda>i j k. format_f (z_coords ! k))"

text \<open>The text written to the output file.\<close>

definition ffd_file_text ::
  "int \<Rightarrow> int \<Rightarrow> int \<Rightarrow> pyfloat list \<Rightarrow> pyfloat list \<Rightarrow> pyfloat list \<Rightarrow> string" where
  "ffd_file_text nx ny nz x_coords y_coords z_coords =
     ''1'' @ [newline] @
     show_int nx @ '' '' @ show_int ny @ '' '' @ show_int nz @ [newline] @
     join '' '' (x_list (nat nx) (nat ny) (nat nz) x_coords) @ [newline] @
     join '' '' (y_list (nat nx) (nat ny) (nat nz) y_coords) @ [newline] @
     join '' '' (z_list (nat nx) (nat ny) (nat nz) z_coords) @ [newline]"

text \<open>\<open>generate_ffd_box\<close>: from the content of the STL file and the options to the
  content of the output file.\<close>

definition generate_ffd_box ::
  "string \<Rightarrow> int \<Rightarrow> int \<Rightarrow> int \<Rightarrow> pyfloat \<Rightarrow> pyfloat \<Rightarrow> pyfloat \<Rightarrow>
   pyfloat option \<Rightarrow> pyfloat option \<Rightarrow> error + string" where
  "generate_ffd_box stl_file nx ny nz offset_x offset_y offset_z x_start x_end =
     (case get_stl_bounds stl_file of
        Inl e \<Rightarrow> Inl e
      | Inr (min_point, max_point) \<Rightarrow>
          (case ffd_coords
                  (ffd_box_bounds min_point max_point offset_x offset_y offset_z x_start x_end)
                  nx ny nz of
             Inl e \<Rightarrow> Inl e
           | Inr (x_coords, y_coords, z_coords) \<Rightarrow>
               Inr (ffd_file_text nx ny nz x_coords y_coords z_coords)))"

section \<open>The grid writer (genXYZ.py)\<close>

text \<open>The line of dimensions: \<open>'%d %d %d '\<close> for each block.\<close>

definition write_dims :: "int \<Rightarrow> int list \<Rightarrow> int list \<Rightarrow> int list \<Rightarrow> error + string" where
  "write_dims nBlocks nx ny nz =
     (if nat nBlocks \<le> length nx \<and> nat nBlocks \<le> length ny \<and> nat nBlocks \<le> length nz
      then Inr (concat (map (\<lambda>i. show_int (nx ! i) @ '' '' @ show_int (ny ! i) @ '' '' @
                                  show_int (nz ! i) @ '' '') [0..<nat nBlocks]))
      else Inl IndexError)"

definition in_shape :: "ndarray4 \<Rightarrow> nat \<Rightarrow> nat \<Rightarrow> nat \<Rightarrow> nat \<Rightarrow> bool" where
  "in_shape P i j k d =
     (case shape P of (s0, s1, s2, s3) \<Rightarrow> i < s0 \<and> j < s1 \<and> k < s2 \<and> d < s3)"

text \<open>
  One coordinate channel of one block: \<open>'%f ' % points[block][i,j,k,d]\<close> in the three
  nested loops.  Reading outside the array raises \<open>IndexError\<close>.
\<close>

definition write_channel ::
  "ndarray4 list \<Rightarrow> nat \<Rightarrow> nat \<Rightarrow> nat \<Rightarrow> nat \<Rightarrow> nat \<Rightarrow> error + string" where
  "write_channel points block nx ny nz d =
     (if list_all (\<lambda>(i, j, k). block < length points \<and> in_shape (points ! block) i j k d)
           (flatten_kji nx ny nz (\<lambda>i j k. (i, j, k)))
      then Inr (concat (flatten_kji nx ny nz
                  (\<lambda>i j k. format_f (item (points ! block) i j k d) @ '' '')))
      else Inl IndexError)"

text \<open>The body of \<open>for block in range(nBlocks)\<close>.\<close>

definition write_block ::
  "int list \<Rightarrow> int list \<Rightarrow> int list \<Rightarrow> ndarray4 list \<Rightarrow> nat \<Rightarrow> error + string" where
  "write_block nx ny nz points block =
     (if block < length nx \<and> block < length ny \<and> block < length nz then
        (let n0 = nat (nx ! block); n1 = nat (ny ! block); n2 = nat (nz ! block) in
         case write_channel points block n0 n1 n2 0 of
           Inl e \<Rightarrow> Inl e
         | Inr cx \<Rightarrow>
             (case write_channel points block n0 n1 n2 1 of
                Inl e \<Rightarrow> Inl e
              | Inr cy \<Rightarrow>
                  (case write_channel points block n0 n1 n2 2 of
                     Inl e \<Rightarrow> Inl e
                   | Inr cz \<Rightarrow> Inr (cx @ [newline] @ cy @ [newline] @ cz))))
      else Inl IndexError)"

fun write_blocks ::
  "int list \<Rightarrow> int list \<Rightarrow> int list \<Rightarrow> ndarray4 list \<Rightarrow> nat list \<Rightarrow> error + string" where
  "write_blocks nx ny nz points [] = Inr []"
| "write_blocks nx ny nz points (block # rest) =
     (case write_block nx ny nz points block of
        Inl e \<Rightarrow> Inl e
      | Inr s \<Rightarrow>
          (case write_blocks nx ny nz points rest of
             Inl e \<Rightarrow> Inl e
           | Inr r \<Rightarrow> Inr (s @ r)))"

text \<open>\<open>writeFFDFile\<close>: the content of the file written.\<close>

definition writeFFDFile ::
  "int \<Rightarrow> int list \<Rightarrow> int list \<Rightarrow> int list \<Rightarrow> ndarray4 list \<Rightarrow> error + string" where
  "writeFFDFile nBlocks nx ny nz points =
     (case write_dims nBlocks nx ny nz of
        Inl e \<Rightarrow> Inl e
      | Inr dims \<Rightarrow>
          (case write_blocks nx ny nz points [0..<nat nBlocks] of
             Inl e \<Rightarrow> Inl e
           | Inr body \<Rightarrow> Inr (show_int nBlocks @ [newline] @ dims @ [newline] @ body)))"

section \<open>The grid reader (convert\_XYZ\_to\_VTK.py)\<close>

text \<open>A three-dimensional numpy array made by \<open>reshape\<close>: its shape and its entries in
  row-major order.\<close>

record ndarray3 =
  dims3 :: "nat \<times> nat \<times> nat"
  flat :: "pyfloat list"

definition item3 :: "ndarray3 \<Rightarrow> nat \<Rightarrow> nat \<Rightarrow> nat \<Rightarrow> pyfloat" where
  "item3 A a b c = (case dims3 A of (n0, n1, n2) \<Rightarrow> flat A ! ((a * n1 + b) * n2 + c))"

text \<open>The slice \<open>x[:n]\<close>.\<close>

definition py_take :: "int \<Rightarrow> 'a list \<Rightarrow> 'a list" where
  "py_take n xs = (if 0 \<le> n then take (nat n) xs else take (length xs - nat (- n)) xs)"

text \<open>
  \<open>np.array(xs).reshape((d0, d1, d2))\<close>: the product of the dimensions must be the
  number of elements; one dimension may be \<open>-1\<close> and is then inferred; anything else
  raises \<open>ValueError\<close>.
\<close>

definition infer_dim :: "int \<Rightarrow> int \<Rightarrow> int \<Rightarrow> int option" where
  "infer_dim len known d =
     (if 0 \<le> d then Some d
      else if d = - 1 \<and> known \<noteq> 0 \<and> len mod known = 0 then Some (len div known)
      else None)"

definition reshape3 :: "pyfloat list \<Rightarrow> int \<Rightarrow> int \<Rightarrow> int \<Rightarrow> error + ndarray3" where
  "reshape3 xs d0 d1 d2 =
     (let len = int (length xs);
          negatives = length (filter (\<lambda>d. d < 0) [d0, d1, d2])
      in if 1 < negatives then Inl ValueError
         else case (infer_dim len (d1 * d2) d0, infer_dim len (d0 * d2) d1,
                    infer_dim len (d0 * d1) d2) of
                (Some n0, Some n1, Some n2) \<Rightarrow>
                  (if n0 * n1 * n2 = len
                   then Inr \<lparr> dims3 = (nat n0, nat n1, nat n2), flat = xs \<rparr>
                   else Inl ValueError)
              | _ \<Rightarrow> Inl ValueError)"

text \<open>\<open>f.readline()\<close> on the lines still to read: the next line, or the empty string
  at the end of the file.\<close>

fun next_line :: "string list \<Rightarrow> string \<times> string list" where
  "next_line [] = ([], [])"
| "next_line (l # ls) = (l, ls)"

text \<open>
  One of the three loops \<open>for line in f\<close>: the values of the non-blank lines are
  appended to \<open>x\<close> until there are at least \<open>n\<close> of them or the file ends.  Returns the
  list and the lines still to read.
\<close>

fun read_channel :: "int \<Rightarrow> string list \<Rightarrow> pyfloat list \<Rightarrow> error + pyfloat list \<times> string list" where
  "read_channel n [] x = Inr (x, [])"
| "read_channel n (line # rest) x =
     (if strip line \<noteq> [] then
        (case those (map py_float (split (strip line))) of
           None \<Rightarrow> Inl ValueError
         | Some vs \<Rightarrow>
             (if n \<le> int (length (x @ vs)) then Inr (x @ vs, rest)
              else read_channel n rest (x @ vs)))
      else read_channel n rest x)"

text \<open>\<open>readPlot3D\<close>, on the content of the file.\<close>

definition readPlot3D :: "string \<Rightarrow> error + ndarray3 \<times> ndarray3 \<times> ndarray3" where
  "readPlot3D file =
     (let (line1, rest1) = next_line (text_lines file) in
      case py_int (strip line1) of
        None \<Rightarrow> Inl ValueError
      | Some nBlocks \<Rightarrow>
          (let (line2, rest2) = next_line rest1;
               dims = split (strip line2)
           in case (if 0 < length dims then Inr (py_int (dims ! 0)) else Inl IndexError) of
                Inl e \<Rightarrow> Inl e
              | Inr None \<Rightarrow> Inl ValueError
              | Inr (Some nx) \<Rightarrow>
           (case (if 1 < length dims then Inr (py_int (dims ! 1)) else Inl IndexError) of
                Inl e \<Rightarrow> Inl e
              | Inr None \<Rightarrow> Inl ValueError
              | Inr (Some ny) \<Rightarrow>
           (case (if 2 < length dims then Inr (py_int (dims ! 2)) else Inl IndexError) of
                Inl e \<Rightarrow> Inl e
              | Inr None \<Rightarrow> Inl ValueError
              | Inr (Some nz) \<Rightarrow>
           (case read_channel (nx * ny * nz) rest2 [] of
                Inl e \<Rightarrow> Inl e
              | Inr (x, rest3) \<Rightarrow>
           (case reshape3 (py_take (nx * ny * nz) x) nz ny nx of
                Inl e \<Rightarrow> Inl e
              | Inr xa \<Rightarrow>
           (case read_channel (nx * ny * nz) rest3 [] of
                Inl e \<Rightarrow> Inl e
              | Inr (y, rest4) \<Rightarrow>
           (case reshape3 (py_take (nx * ny * nz) y) nz ny nx of
                Inl e \<Rightarrow> Inl e
              | Inr ya \<Rightarrow>
           (case read_channel (nx * ny * nz) rest4 [] of
                Inl e \<Rightarrow> Inl e
              | Inr (z, rest5) \<Rightarrow>
           (case reshape3 (py_take (nx * ny * nz) z) nz ny nx of
                Inl e \<Rightarrow> Inl e
              | Inr za \<Rightarrow> Inr (xa, ya, za)))))))))))"

section \<open>Axis-aligned corner sets\<close>

text \<open>
  The eight corners of an axis-aligned box in the corner ordering of
  \<open>returnBlockPoints\<close> (0: xMin yMin zMin, 1: xMax yMin zMin, 2: xMax yMin zMax,
  3: xMin yMin zMax, 4: xMin yMax zMin, 5: xMax yMax zMin, 6: xMax yMax zMax,
  7: xMin yMax zMax), as the script of genXYZ.py fills them in.
\<close>

definition box_corners :: "real \<Rightarrow> real \<Rightarrow> real \<Rightarrow> real \<Rightarrow> real \<Rightarrow> real \<Rightarrow> real list list" where
  "box_corners xMin xMax yMin yMax zMin zMax =
     [[xMin, yMin, zMin], [xMax, yMin, zMin], [xMax, yMin, zMax], [xMin, yMin, zMax],
      [xMin, yMax, zMin], [xMax, yMax, zMin], [xMax, yMax, zMax], [xMin, yMax, zMax]]"

section \<open>A sample surface\<close>

text \<open>A text STL file whose vertices are \<open>(0,0,0)\<close>, \<open>(2,0,0)\<close> and \<open>(1,0,0)\<close>: its bounding
  box has min \<open>(0,0,0)\<close> and max \<open>(2,0,0)\<close>.\<close>

definition example_stl :: string where
  "example_stl =
     ''solid bar'' @ [newline] @
     ''vertex 0 0 0'' @ [newline] @
     ''vertex 2 0 0'' @ [newline] @
     ''vertex 1 0 0'' @ [newline] @
     ''endsolid bar'' @ [newline]"

section \<open>The vertices of a surface file, by its format\<close>

text \<open>
  The binary format: an 80-byte header, a 4-byte little-endian triangle count, then 50
  bytes per triangle (a normal of 3 floats, 3 vertices of 3 floats each, a 2-byte
  trailer).  Vertex \<open>v\<close> of triangle \<open>t\<close> therefore starts at byte
  \<open>84 + 50 * t + 12 + 12 * v\<close>.
\<close>

definition vertex_at :: "string \<Rightarrow> nat \<Rightarrow> point3" where
  "vertex_at file off =
     (decode_f32 (le_nat (take 4 (drop off file))),
      decode_f32 (le_nat (take 4 (drop (off + 4) file))),
      decode_f32 (le_nat (take 4 (drop (off + 8) file))))"

definition declared_triangles :: "string \<Rightarrow> nat" where
  "declared_triangles file = le_nat (take 4 (drop 80 file))"

text \<open>All the vertex data the declared count asks for is in the file: the count itself,
  and every triangle up to the last byte of its third vertex.\<close>

definition vertex_data_complete :: "string \<Rightarrow> bool" where
  "vertex_data_complete file =
     (84 \<le> length file \<and>
      (declared_triangles file = 0 \<or>
       84 + 50 * (declared_triangles file - 1) + 48 \<le> length file))"

definition binary_vertices :: "string \<Rightarrow> point3 list option" where
  "binary_vertices file =
     (if vertex_data_complete file
      then Some (concat (map (\<lambda>t. map (\<lambda>v. vertex_at file (84 + 50 * t + 12 + 12 * v)) [0..<3])
                          [0..<declared_triangles file]))
      else None)"










section \<open>Sample surfaces\<close>









section \<open>Reading the lattice\<close>





section \<open>Properties of rounding\<close>

lemma rnd_0: "rnd 0 = Fin 0"
  by (simp add: rnd_def)

text \<open>Rounding to the nearest natural number.\<close>

lemma round_half_even_nat: "round_half_even (real n) = n"
  by (simp add: round_half_even_def)

lemma round_half_even_numeral: "round_half_even (numeral k) = numeral k"
  using round_half_even_nat [of "numeral k"] by simp

lemma round_half_even_mono:
  assumes "0 \<le> s" and "s \<le> t"
  shows "round_half_even s \<le> round_half_even t"
proof (cases "\<lfloor>s\<rfloor> = \<lfloor>t\<rfloor>")
  case True
  then show ?thesis using assms by (auto simp: round_half_even_def Let_def)
next
  case False
  then have lt: "\<lfloor>s\<rfloor> < \<lfloor>t\<rfloor>" using assms(2) floor_mono [of s t] by linarith
  have fs: "0 \<le> \<lfloor>s\<rfloor>" using assms(1) by simp
  have "round_half_even s \<le> nat \<lfloor>s\<rfloor> + 1" by (simp add: round_half_even_def Let_def)
  also have "\<dots> \<le> nat \<lfloor>t\<rfloor>" using lt fs by linarith
  also have "\<dots> \<le> round_half_even t" by (simp add: round_half_even_def Let_def)
  finally show ?thesis .
qed

lemma ulp_pos: "0 < ulp x"
  by (simp add: ulp_def)

lemma binade_ge: "- 1022 \<le> binade x"
  by (simp add: binade_def)

lemma binade_eq:
  assumes "2 powr real_of_int e \<le> \<bar>x\<bar>" and "\<bar>x\<bar> < 2 powr real_of_int (e + 1)" and "- 1022 \<le> e"
  shows "binade x = e"
proof -
  have "0 < \<bar>x\<bar>" using assms(1) powr_gt_zero [of 2 "real_of_int e"] by linarith
  then have "\<lfloor>log 2 \<bar>x\<bar>\<rfloor> = e"
    using assms(1,2) by (simp add: floor_log_eq_powr_iff)
  then show ?thesis using assms(3) by (simp add: binade_def)
qed

lemma abs_less_binade: "x \<noteq> 0 \<Longrightarrow> \<bar>x\<bar> < 2 powr real_of_int (binade x + 1)"
proof -
  assume "x \<noteq> 0"
  then have pos: "0 < \<bar>x\<bar>" by simp
  have "\<bar>x\<bar> < 2 powr real_of_int (\<lfloor>log 2 \<bar>x\<bar>\<rfloor> + 1)"
    using floor_log_eq_powr_iff [OF pos, of 2 "\<lfloor>log 2 \<bar>x\<bar>\<rfloor>"] by simp
  also have "\<dots> \<le> 2 powr real_of_int (binade x + 1)"
    by (simp add: binade_def)
  finally show ?thesis .
qed

lemma binade_normal:
  assumes "- 1022 < binade x" and "x \<noteq> 0"
  shows "2 powr real_of_int (binade x) \<le> \<bar>x\<bar>"
proof -
  have b: "binade x = \<lfloor>log 2 \<bar>x\<bar>\<rfloor>" using assms(1) by (simp add: binade_def max_def split: if_splits)
  have pos: "0 < \<bar>x\<bar>" using assms(2) by simp
  show ?thesis
    using floor_log_eq_powr_iff [OF pos, of 2 "\<lfloor>log 2 \<bar>x\<bar>\<rfloor>"] b by simp
qed


lemma rnd_rmag:
  "rnd x = (if x = 0 then Fin 0
            else if 2 ^ 1024 \<le> rmag x then (if 0 < x then PInf else NInf)
            else Fin (if 0 < x then rmag x else - rmag x))"
  by (rule rnd_def)

lemma powr_binade: "2 powr real_of_int (binade x) = 2 ^ 52 * ulp x"
proof -
  have "2 powr real_of_int (binade x) = 2 powr (52 + (real_of_int (binade x) - 52))" by simp
  also have "\<dots> = 2 powr 52 * ulp x" unfolding ulp_def by (rule powr_add)
  finally show ?thesis by simp
qed

lemma powr_binade_Suc: "2 powr real_of_int (binade x + 1) = 2 ^ 53 * ulp x"
proof -
  have "2 powr real_of_int (binade x + 1) = 2 powr (53 + (real_of_int (binade x) - 52))"
    by (simp add: add.commute)
  also have "\<dots> = 2 powr 53 * ulp x" unfolding ulp_def by (rule powr_add)
  finally show ?thesis by simp
qed

lemma rmag_nonneg: "0 \<le> rmag x"
  using ulp_pos [of x] by (simp add: rmag_def)

lemma rmag_exact:
  assumes "\<bar>x\<bar> / ulp x = real k"
  shows "rmag x = \<bar>x\<bar>"
proof -
  have "rmag x = real k * ulp x" by (simp add: rmag_def assms round_half_even_nat)
  also have "\<dots> = \<bar>x\<bar>" using assms ulp_pos [of x] by (simp add: field_simps)
  finally show ?thesis .
qed

lemma mantissa_le:
  assumes "x \<noteq> 0"
  shows "round_half_even (\<bar>x\<bar> / ulp x) \<le> 2 ^ 53"
proof -
  have "\<bar>x\<bar> < 2 ^ 53 * ulp x"
    using abs_less_binade [OF assms] unfolding powr_binade_Suc .
  then have "\<bar>x\<bar> / ulp x \<le> real (2 ^ 53)"
    using ulp_pos [of x] by (simp add: field_simps)
  from round_half_even_mono [OF _ this] show ?thesis
    using ulp_pos [of x] by (simp add: round_half_even_numeral)
qed

lemma mantissa_ge:
  assumes "x \<noteq> 0" and "- 1022 < binade x"
  shows "2 ^ 52 \<le> round_half_even (\<bar>x\<bar> / ulp x)"
proof -
  have "2 ^ 52 * ulp x \<le> \<bar>x\<bar>"
    using binade_normal [OF assms(2,1)] unfolding powr_binade .
  then have "real (2 ^ 52) \<le> \<bar>x\<bar> / ulp x"
    using ulp_pos [of x] by (simp add: field_simps)
  from round_half_even_mono [OF _ this] show ?thesis
    by (simp add: round_half_even_numeral)
qed

lemma rmag_le: "x \<noteq> 0 \<Longrightarrow> rmag x \<le> 2 powr real_of_int (binade x + 1)"
proof -
  assume "x \<noteq> 0"
  from mantissa_le [OF this]
  have "real (round_half_even (\<bar>x\<bar> / ulp x)) \<le> 2 ^ 53"
    by (metis of_nat_le_iff of_nat_numeral of_nat_power)
  then show ?thesis
    unfolding rmag_def powr_binade_Suc using ulp_pos [of x] by (simp add: mult_right_mono)
qed

lemma rmag_ge: "x \<noteq> 0 \<Longrightarrow> - 1022 < binade x \<Longrightarrow> 2 powr real_of_int (binade x) \<le> rmag x"
proof -
  assume "x \<noteq> 0" "- 1022 < binade x"
  from mantissa_ge [OF this]
  have "2 ^ 52 \<le> real (round_half_even (\<bar>x\<bar> / ulp x))"
    by (metis of_nat_le_iff of_nat_numeral of_nat_power)
  then show ?thesis
    unfolding rmag_def powr_binade using ulp_pos [of x] by (simp add: mult_right_mono)
qed

lemma binade_mono:
  assumes "y \<noteq> 0" and "\<bar>y\<bar> \<le> \<bar>x\<bar>"
  shows "binade y \<le> binade x"
proof -
  have "log 2 \<bar>y\<bar> \<le> log 2 \<bar>x\<bar>" using assms by simp
  then have "\<lfloor>log 2 \<bar>y\<bar>\<rfloor> \<le> \<lfloor>log 2 \<bar>x\<bar>\<rfloor>" by (rule floor_mono)
  then show ?thesis by (simp add: binade_def)
qed

lemma rmag_mono:
  assumes "y \<noteq> 0" and "\<bar>y\<bar> \<le> \<bar>x\<bar>"
  shows "rmag y \<le> rmag x"
proof -
  have x: "x \<noteq> 0" using assms by auto
  have le: "binade y \<le> binade x" using assms by (rule binade_mono)
  show ?thesis
  proof (cases "binade y = binade x")
    case True
    then have u: "ulp y = ulp x" by (simp add: ulp_def)
    have "\<bar>y\<bar> / ulp x \<le> \<bar>x\<bar> / ulp x"
      using assms(2) ulp_pos [of x] by (simp add: divide_right_mono)
    from round_half_even_mono [OF _ this] ulp_pos [of x]
    show ?thesis by (simp add: rmag_def u mult_right_mono)
  next
    case False
    with le have lt: "binade y + 1 \<le> binade x" by simp
    have n: "- 1022 < binade x" using lt binade_ge [of y] by linarith
    have "rmag y \<le> 2 powr real_of_int (binade y + 1)" using assms(1) by (rule rmag_le)
    also have "\<dots> \<le> 2 powr real_of_int (binade x)" using lt by simp
    also have "\<dots> \<le> rmag x" using x n by (rule rmag_ge)
    finally show ?thesis .
  qed
qed

lemma rnd_finite_mono:
  assumes "rnd x = Fin a" and "\<bar>y\<bar> \<le> \<bar>x\<bar>"
  shows "\<exists>b. rnd y = Fin b"
proof (cases "y = 0")
  case True
  then show ?thesis by (simp add: rnd_0)
next
  case False
  then have x: "x \<noteq> 0" using assms(2) by auto
  have "rmag x < 2 ^ 1024" using assms(1) x by (simp add: rnd_rmag split: if_splits)
  with rmag_mono [OF False assms(2)] have "rmag y < 2 ^ 1024" by simp
  then show ?thesis using False by (simp add: rnd_rmag)
qed


lemma binade_subnormal:
  assumes "a \<noteq> 0" and "\<bar>a\<bar> < 2 powr (- 1022)"
  shows "binade a = - 1022"
proof -
  have pos: "0 < \<bar>a\<bar>" using assms(1) by simp
  have "log 2 \<bar>a\<bar> < - 1022"
    using assms(2) pos by (simp add: log_less_iff)
  then have "\<lfloor>log 2 \<bar>a\<bar>\<rfloor> < - 1022" by linarith
  then show ?thesis by (simp add: binade_def)
qed

lemma powr_shift:
  "2 powr (real_of_int e - 52 + real j) = 2 ^ j * 2 powr (real_of_int e - 52)"
proof -
  have "2 powr (real_of_int e - 52 + real j) = 2 powr (real_of_int e - 52) * 2 powr real j"
    by (rule powr_add)
  also have "2 powr real j = (2::real) ^ j" by (simp add: powr_realpow)
  finally show ?thesis by (simp add: mult.commute)
qed

lemma repr_mantissa:
  assumes a: "\<bar>a\<bar> = real m * 2 powr (real_of_int e - 52)"
    and m: "0 < m" "m \<le> 2 ^ 53" and e: "- 1022 \<le> e" and n: "2 ^ 52 \<le> m \<or> e = - 1022"
  shows "\<exists>k. \<bar>a\<bar> / ulp a = real k"
proof -
  let ?q = "2 powr (real_of_int e - 52)"
  have q: "0 < ?q" by simp
  have p0: "2 powr real_of_int e = 2 ^ 52 * ?q"
    using powr_shift [of e 52] by simp
  have p1: "2 powr real_of_int (e + 1) = 2 ^ 53 * ?q"
    using powr_shift [of e 53] by (simp add: add.commute)
  have p2: "2 powr real_of_int (e + 1 + 1) = 2 ^ 54 * ?q"
    using powr_shift [of e 54] by (simp add: add.commute)
  have a0: "a \<noteq> 0" using a m(1) q by auto
  have mr: "real m \<le> 2 ^ 53" using m(2) by (metis of_nat_le_iff of_nat_numeral of_nat_power)
  show ?thesis
  proof (cases "m = 2 ^ 53")
    case True
    then have av: "\<bar>a\<bar> = 2 ^ 53 * ?q" using a by simp
    have "binade a = e + 1"
    proof (rule binade_eq)
      show "2 powr real_of_int (e + 1) \<le> \<bar>a\<bar>" unfolding p1 av by simp
      show "\<bar>a\<bar> < 2 powr real_of_int (e + 1 + 1)" unfolding p2 av using q by simp
      show "- 1022 \<le> e + 1" using e by simp
    qed
    then have "ulp a = 2 powr (real_of_int e - 52 + real 1)"
      by (simp add: ulp_def algebra_simps)
    then have "ulp a = 2 * ?q" unfolding powr_shift by simp
    then have "\<bar>a\<bar> / ulp a = real (2 ^ 52)" using av q by simp
    then show ?thesis ..
  next
    case False
    then have lt: "real m < 2 ^ 53"
      using m(2) by (metis le_neq_implies_less of_nat_less_iff of_nat_numeral of_nat_power)
    have up: "\<bar>a\<bar> < 2 powr real_of_int (e + 1)"
      unfolding p1 a using lt q by simp
    have "binade a = e"
    proof (cases "2 ^ 52 \<le> m")
      case True
      then have "2 ^ 52 \<le> real m" by (metis of_nat_le_iff of_nat_numeral of_nat_power)
      then have "2 powr real_of_int e \<le> \<bar>a\<bar>" unfolding p0 a using q by simp
      from binade_eq [OF this up e] show ?thesis .
    next
      case False
      with n have e1: "e = - 1022" by simp
      from False have "real m < 2 ^ 52"
        by (metis not_le of_nat_less_iff of_nat_numeral of_nat_power)
      then have "\<bar>a\<bar> < 2 powr real_of_int e" unfolding p0 a using q by simp
      then have "\<bar>a\<bar> < 2 powr (- 1022)" by (simp add: e1)
      from binade_subnormal [OF a0 this] e1 show ?thesis by simp
    qed
    then have "ulp a = ?q" by (simp add: ulp_def)
    then have "\<bar>a\<bar> / ulp a = real m" using a q by simp
    then show ?thesis ..
  qed
qed

lemma rmag_form:
  assumes "x \<noteq> 0" and "rmag x \<noteq> 0"
  shows "\<exists>k. rmag x / ulp (rmag x) = real k"
proof -
  let ?m = "round_half_even (\<bar>x\<bar> / ulp x)"
  have r: "\<bar>rmag x\<bar> = real ?m * 2 powr (real_of_int (binade x) - 52)"
    using rmag_nonneg [of x] by (simp add: rmag_def ulp_def)
  have m0: "0 < ?m" using assms(2) by (auto simp: rmag_def)
  have n: "2 ^ 52 \<le> ?m \<or> binade x = - 1022"
    using mantissa_ge [OF assms(1)] binade_ge [of x] by (cases "binade x = - 1022") auto
  from repr_mantissa [OF r m0 mantissa_le [OF assms(1)] binade_ge n]
  show ?thesis using rmag_nonneg [of x] by simp
qed

lemma ulp_minus: "ulp (- x) = ulp x"
  by (simp add: ulp_def binade_def)

lemma rmag_minus: "rmag (- x) = rmag x"
  by (simp add: rmag_def ulp_minus)

lemma rmag_0: "rmag 0 = 0"
  by (simp add: rmag_def round_half_even_def)

lemma rmag_idem: "x \<noteq> 0 \<Longrightarrow> rmag (rmag x) = rmag x"
proof (cases "rmag x = 0")
  case True
  then show ?thesis by (simp add: rmag_0)
next
  case False
  assume "x \<noteq> 0"
  from rmag_form [OF this False] obtain k where "rmag x / ulp (rmag x) = real k" ..
  then have "\<bar>rmag x\<bar> / ulp (rmag x) = real k" using rmag_nonneg [of x] by simp
  from rmag_exact [OF this] show ?thesis using rmag_nonneg [of x] by simp
qed

lemma rnd_exact:
  assumes "rmag a = \<bar>a\<bar>" and "\<bar>a\<bar> < 2 ^ 1024"
  shows "rnd a = Fin a"
proof -
  have "\<not> 2 ^ 1024 \<le> rmag a" using assms by simp
  then show ?thesis unfolding rnd_rmag using assms(1) by auto
qed

lemma rnd_idem:
  assumes "rnd x = Fin a"
  shows "rnd a = Fin a"
proof (cases "x = 0")
  case True
  with assms show ?thesis by (simp add: rnd_0)
next
  case False
  have lt: "rmag x < 2 ^ 1024" and a: "a = (if 0 < x then rmag x else - rmag x)"
    using assms False by (auto simp: rnd_rmag split: if_splits)
  have abs: "\<bar>a\<bar> = rmag x" using a rmag_nonneg [of x] by auto
  have "rmag a = rmag (rmag x)" using a by (auto simp: rmag_minus)
  also have "\<dots> = rmag x" using False by (rule rmag_idem)
  finally have "rmag a = \<bar>a\<bar>" using abs by simp
  moreover have "\<bar>a\<bar> < 2 ^ 1024" using abs lt by simp
  ultimately show ?thesis by (rule rnd_exact)
qed


text \<open>The natural numbers up to \<open>2^53\<close> and their negatives are doubles.\<close>

lemma rnd_minus: "rnd (- x) = fneg (rnd x)"
  by (simp add: rnd_def rmag_minus)

lemma rnd_nat:
  assumes "n \<le> 2 ^ 53"
  shows "rnd (real n) = Fin (real n)"
proof (cases "n = 0")
  case True
  then show ?thesis by (simp add: rnd_0)
next
  case False
  then have "1 \<le> n" by simp
  from ex_power_ivl1 [OF _ this, of 2] obtain e where e: "2 ^ e \<le> n" "n < 2 ^ (e + 1)"
    by auto
  have e53: "e \<le> 53"
  proof (rule ccontr)
    assume "\<not> e \<le> 53"
    then have "54 \<le> e" by simp
    then have "(2::nat) ^ 54 \<le> 2 ^ e" by (rule power_increasing) simp
    with e(1) assms show False by simp
  qed
  have lo: "2 powr real_of_int (int e) \<le> \<bar>real n\<bar>"
    using e(1) by (simp add: powr_realpow)
  have hi: "\<bar>real n\<bar> < 2 powr real_of_int (int e + 1)"
  proof -
    have "real n < 2 ^ (e + 1)"
      using e(2) by (metis of_nat_less_iff of_nat_numeral of_nat_power)
    moreover have "2 powr real_of_int (int e + 1) = (2::real) ^ (e + 1)"
      using powr_realpow [of 2 "e + 1"] by (simp add: add.commute)
    ultimately show ?thesis by simp
  qed
  have b: "binade (real n) = int e"
    by (rule binade_eq [OF lo hi]) simp
  have "\<exists>k. \<bar>real n\<bar> / ulp (real n) = real k"
  proof (cases "e \<le> 52")
    case True
    have "ulp (real n) = 2 powr (- real (52 - e))"
      using True by (simp add: ulp_def b)
    also have "\<dots> = 1 / 2 ^ (52 - e)"
      by (simp add: powr_minus_divide powr_realpow)
    finally have "\<bar>real n\<bar> / ulp (real n) = real (n * 2 ^ (52 - e))" by simp
    then show ?thesis ..
  next
    case False
    with e53 have e: "e = 53" by simp
    with \<open>2 ^ e \<le> n\<close> assms have n: "n = 2 ^ 53" by simp
    have "ulp (real n) = 2 powr 1" by (simp add: ulp_def b e)
    then have "\<bar>real n\<bar> / ulp (real n) = real (2 ^ 52)" by (simp add: n)
    then show ?thesis ..
  qed
  then obtain k where "\<bar>real n\<bar> / ulp (real n) = real k" ..
  then have "rmag (real n) = \<bar>real n\<bar>" by (rule rmag_exact)
  moreover have "\<bar>real n\<bar> < 2 ^ 1024"
  proof -
    have "real n \<le> 2 ^ 53" using assms by (metis of_nat_le_iff of_nat_numeral of_nat_power)
    also have "\<dots> < (2::real) ^ 1024" by (rule power_strict_increasing) simp_all
    finally show ?thesis by simp
  qed
  ultimately show ?thesis by (rule rnd_exact)
qed

lemma rnd_1: "rnd 1 = Fin 1"
  using rnd_nat [of 1] by simp

lemma rnd_numeral: "numeral k \<le> (9007199254740992::nat) \<Longrightarrow> rnd (numeral k) = Fin (numeral k)"
  using rnd_nat [of "numeral k"] by simp

lemma rnd_neg_numeral:
  "numeral k \<le> (9007199254740992::nat) \<Longrightarrow> rnd (- numeral k) = Fin (- numeral k)"
  by (simp add: rnd_minus rnd_numeral)

lemma rnd_neg_1: "rnd (- 1) = Fin (- 1)"
  by (simp add: rnd_minus rnd_1)

lemmas rnd_eval = rnd_0 rnd_1 rnd_neg_1 rnd_numeral rnd_neg_numeral

lemma is_double_nat: "n \<le> 2 ^ 53 \<Longrightarrow> is_double (real n)"
  by (simp add: is_double_def rnd_nat)

text \<open>A finite result of an operation is a double.\<close>

lemma rnd_is_double: "rnd x = Fin a \<Longrightarrow> is_double a"
  unfolding is_double_def by (rule rnd_idem)

lemma fadd_is_double: "fadd p q = Fin a \<Longrightarrow> is_double a"
  by (cases p; cases q) (simp_all add: rnd_is_double)

lemma fsub_is_double: "fsub p q = Fin a \<Longrightarrow> is_double a"
  unfolding fsub_def by (rule fadd_is_double)

section \<open>Properties of linspace\<close>

lemma length_linspace_vals [simp]: "length (linspace_vals a b n) = n"
  by (simp add: linspace_vals_def Let_def)

text \<open>For two or more samples the last one is \<open>stop\<close> itself.\<close>

lemma linspace_vals_last:
  assumes "2 \<le> n"
  shows "linspace_vals a b n ! (n - 1) = b"
  using assms by (simp add: linspace_vals_def Let_def)

text \<open>No sample at all for a count of 0.\<close>

lemma linspace_vals_0: "linspace_vals a b 0 = []"
  by (simp add: linspace_vals_def)

text \<open>A finite difference divided by a positive integer stays finite.\<close>

lemma fdiv_pos_finite:
  assumes "is_double d" and "0 < n"
  shows "\<exists>s. fdiv_pos (Fin d) n = Fin s"
proof -
  have "1 \<le> real n" using assms(2) by simp
  then have "\<bar>d\<bar> / real n \<le> \<bar>d\<bar>"
    by (simp add: divide_le_eq mult_le_cancel_left1)
  then have "\<bar>d / real n\<bar> \<le> \<bar>d\<bar>" by simp
  from rnd_finite_mono [OF _ this] assms(1) show ?thesis
    by (simp add: is_double_def)
qed

text \<open>The offset of the first sample is zero whenever \<open>stop - start\<close> is finite.\<close>

lemma linspace_y_0:
  assumes "is_double d"
  shows "linspace_y (Fin d) n 0 = Fin 0"
proof (cases "0 < n - 1")
  case True
  from fdiv_pos_finite [OF assms True] obtain s where s: "fdiv_pos (Fin d) (n - 1) = Fin s" ..
  show ?thesis
    unfolding linspace_y_def Let_def s using True by (simp add: rnd_0)
next
  case False
  then show ?thesis by (simp add: linspace_y_def Let_def rnd_0)
qed

text \<open>A sample of \<open>linspace\<close>: the last one is \<open>stop\<close>, any other is computed.\<close>

lemma linspace_vals_nth:
  assumes "i < n"
  shows "linspace_vals a b n ! i =
           (if 1 < n \<and> i = n - 1 then b else fadd (linspace_y (fsub b a) n i) a)"
  using assms by (simp add: linspace_vals_def Let_def nth_list_update)

text \<open>The first sample is \<open>start\<close> when \<open>start\<close> is a double and \<open>stop - start\<close> does not
  overflow.\<close>

lemma linspace_vals_first:
  assumes "is_double a" and "is_finite (fsub (Fin b) (Fin a))" and "0 < n"
  shows "linspace_vals (Fin a) (Fin b) n ! 0 = Fin a"
proof -
  from assms(2) obtain d where fd: "fsub (Fin b) (Fin a) = Fin d"
    by (cases "fsub (Fin b) (Fin a)") simp_all
  have d: "is_double d" using fd by (rule fsub_is_double)
  have y: "fadd (linspace_y (Fin d) n 0) (Fin a) = Fin a"
    using assms(1) by (simp add: linspace_y_0 [OF d] is_double_def)
  show ?thesis
    unfolding linspace_vals_nth [OF assms(3)] fd y by simp
qed

text \<open>The samples between a double and itself are all that double.\<close>

lemma linspace_vals_const:
  assumes "is_double c" and "i < n"
  shows "linspace_vals (Fin c) (Fin c) n ! i = Fin c"
proof -
  have delta: "fsub (Fin c) (Fin c) = Fin 0" by (simp add: fsub_def rnd_0)
  have y: "linspace_y (Fin 0) n i = Fin 0"
  proof (cases "0 < n - 1")
    case True
    have "\<bar>real i / real (n - 1)\<bar> \<le> \<bar>1\<bar>" using assms(2) True by simp
    from rnd_finite_mono [OF rnd_1 this] obtain q where "rnd (real i / real (n - 1)) = Fin q" ..
    then show ?thesis
      unfolding linspace_y_def Let_def fdiv_pos.simps using True by (simp add: rnd_0)
  next
    case False
    then show ?thesis by (simp add: linspace_y_def Let_def rnd_0)
  qed
  have "fadd (linspace_y (Fin 0) n i) (Fin c) = Fin c"
    using assms(1) by (simp add: y is_double_def)
  then show ?thesis
    unfolding linspace_vals_nth [OF assms(2)] delta by simp
qed

text \<open>A finite sample is a double when \<open>stop\<close> is one.\<close>

lemma linspace_vals_is_double:
  assumes "is_double b" and "i < n" and "linspace_vals a (Fin b) n ! i = Fin v"
  shows "is_double v"
proof (cases "1 < n \<and> i = n - 1")
  case True
  have "v = b"
    using assms(3) unfolding linspace_vals_nth [OF assms(2)] using True by simp
  with assms(1) show ?thesis by simp
next
  case False
  have "fadd (linspace_y (fsub (Fin b) a) n i) a = Fin v"
    using assms(3) unfolding linspace_vals_nth [OF assms(2)] using False
    by (auto split: if_splits)
  then show ?thesis by (rule fadd_is_double)
qed

lemma is_finite_Fin: "is_finite x \<Longrightarrow> \<exists>v. x = Fin v"
  by (cases x) simp_all

section \<open>The loops of returnBlockPoints\<close>

lemma shape_set_row [simp]: "shape (set_row P i k d ys) = shape P"
  by (simp add: set_row_def)

lemma item_set_row:
  "item (set_row P i k d ys) i' j' k' d' =
     (if i' = i \<and> k' = k \<and> d' = d \<and> j' < length ys then ys ! j' else item P i' j' k' d')"
  by (simp add: set_row_def)

lemma fold_block_i_step:
  "shape (fold (block_i_step eMin eMax ny d k) [0..<n] P) = shape P \<and>
   item (fold (block_i_step eMin eMax ny d k) [0..<n] P) i' j' k' d' =
     (if i' < n \<and> k' = k \<and> d' = d \<and> j' < ny
      then linspace_vals (eMin ! i') (eMax ! i') ny ! j' else item P i' j' k' d')"
proof (induction n)
  case 0
  show ?case by simp
next
  case (Suc n)
  then show ?case
    by (auto simp: block_i_step_def item_set_row less_Suc_eq)
qed

lemma fold_block_k_step:
  "shape (fold (block_k_step e1 e2 e3 e4 nx ny d) [0..<n] P) = shape P \<and>
   item (fold (block_k_step e1 e2 e3 e4 nx ny d) [0..<n] P) i' j' k' d' =
     (if k' < n \<and> d' = d \<and> i' < nx \<and> j' < ny
      then linspace_vals (linspace_vals (e1 ! k') (e2 ! k') nx ! i')
                         (linspace_vals (e3 ! k') (e4 ! k') nx ! i') ny ! j'
      else item P i' j' k' d')"
proof (induction n)
  case 0
  show ?case by simp
next
  case (Suc n)
  then show ?case
    by (auto simp: block_k_step_def fold_block_i_step less_Suc_eq)
qed

lemma fold_block_idim_step:
  "shape (fold (block_idim_step c nx ny nz) [0..<n] P) = shape P \<and>
   item (fold (block_idim_step c nx ny nz) [0..<n] P) i j k d =
     (if d < n \<and> i < nx \<and> j < ny \<and> k < nz then block_value c nx ny nz i j k d
      else item P i j k d)"
proof (induction n)
  case 0
  show ?case by simp
next
  case (Suc n)
  then show ?case
    by (auto simp: block_idim_step_def fold_block_k_step less_Suc_eq block_value_def)
qed

text \<open>What \<open>returnBlockPoints\<close> returns, entry by entry.\<close>

lemma returnBlockPoints_item:
  assumes "corners_in_range c"
  shows "\<exists>P. returnBlockPoints c (int nx) (int ny) (int nz) = Inr P \<and>
             shape P = (nx, ny, nz, 3) \<and>
             (\<forall>i j k d. i < nx \<longrightarrow> j < ny \<longrightarrow> k < nz \<longrightarrow> d < 3 \<longrightarrow>
                item P i j k d = block_value c nx ny nz i j k d)"
  using assms
  by (simp add: returnBlockPoints_def fold_block_idim_step np_zeros4_def)

section \<open>The lattice of the corner-based generator\<close>



text \<open>The same lemmas with the index written as simplification leaves it.\<close>

lemma linspace_vals_last_Suc: "2 \<le> n \<Longrightarrow> linspace_vals a b n ! (n - Suc 0) = b"
  using linspace_vals_last [of n a b] by simp

text \<open>On the corners of an axis-aligned box each channel is interpolated along one axis
  only, as long as the values along x and z that are interpolated further are finite.\<close>

lemma corners_in_range_box:
  "corners_in_range (map (map Fin) (box_corners xMin xMax yMin yMax zMin zMax))"
  by (simp add: corners_in_range_def box_corners_def)

lemma linspace_vals_const_finite:
  assumes "is_double b" and "i < n" and "is_finite (linspace_vals a (Fin b) n ! i)" and "j < m"
  shows "linspace_vals (linspace_vals a (Fin b) n ! i) (linspace_vals a (Fin b) n ! i) m ! j =
           linspace_vals a (Fin b) n ! i"
proof -
  from is_finite_Fin [OF assms(3)] obtain v where v: "linspace_vals a (Fin b) n ! i = Fin v" ..
  from linspace_vals_is_double [OF assms(1,2) v] have "is_double v" .
  from linspace_vals_const [OF this assms(4)] show ?thesis by (simp add: v)
qed

lemma block_value_box:
  assumes "i < nx" "j < ny" "k < nz"
    and "is_double xMin" "is_double xMax" "is_double yMin" "is_double yMax"
    and "is_double zMin" "is_double zMax"
  shows "is_finite (linspace_vals (Fin xMin) (Fin xMax) nx ! i) \<Longrightarrow>
         block_value (map (map Fin) (box_corners xMin xMax yMin yMax zMin zMax)) nx ny nz i j k 0
           = linspace_vals (Fin xMin) (Fin xMax) nx ! i"
    and "block_value (map (map Fin) (box_corners xMin xMax yMin yMax zMin zMax)) nx ny nz i j k 1
           = linspace_vals (Fin yMin) (Fin yMax) ny ! j"
    and "is_finite (linspace_vals (Fin zMin) (Fin zMax) nz ! k) \<Longrightarrow>
         block_value (map (map Fin) (box_corners xMin xMax yMin yMax zMin zMax)) nx ny nz i j k 2
           = linspace_vals (Fin zMin) (Fin zMax) nz ! k"
  using assms
  by (simp_all add: block_value_def box_corners_def linspace_vals_const
      linspace_vals_const_finite)






section \<open>The two generators on an axis-aligned box\<close>

lemma ffd_coords_nat:
  "ffd_coords b (int nx) (int ny) (int nz) =
     Inr (linspace_vals (x_min b) (x_max b) nx, linspace_vals (y_min b) (y_max b) ny,
          linspace_vals (z_min b) (z_max b) nz)"
  by (simp add: ffd_coords_def linspace_def)

text \<open>
  C2.  For every axis-aligned box \<open>xMin < xMax\<close>, \<open>yMin < yMax\<close>, \<open>zMin < zMax\<close> of doubles
  and all point counts \<open>nx, ny, nz \<ge> 2\<close>, the corner-based generator applied to the 8
  corners of the box and the offset-box construction (the three \<open>linspace\<close> arrays of
  \<open>generate_ffd_box\<close>, combined as an outer product) give the same lattice: at every index
  \<open>(i, j, k)\<close> the point of the first is \<open>(x_coords[i], y_coords[j], z_coords[k])\<close>,
  provided that \<open>x_coords[i]\<close> and \<open>z_coords[k]\<close> are finite, that is, that the box is not so
  large that the interpolation along x or z overflows (the values along y are interpolated
  last and stored as they are).
\<close>

theorem corner_based_equals_offset_box:
  assumes "xMin < xMax" and "yMin < yMax" and "zMin < zMax"
    and "is_double xMin" and "is_double xMax" and "is_double yMin" and "is_double yMax"
    and "is_double zMin" and "is_double zMax"
    and "2 \<le> nx" and "2 \<le> ny" and "2 \<le> nz"
    and "i < nx" and "j < ny" and "k < nz"
    and "is_finite (linspace_vals (Fin xMin) (Fin xMax) nx ! i)"
    and "is_finite (linspace_vals (Fin zMin) (Fin zMax) nz ! k)"
  shows "\<exists>P x_coords y_coords z_coords.
           returnBlockPoints (map (map Fin) (box_corners xMin xMax yMin yMax zMin zMax))
             (int nx) (int ny) (int nz) = Inr P \<and>
           ffd_coords \<lparr> x_min = Fin xMin, x_max = Fin xMax, y_min = Fin yMin, y_max = Fin yMax,
                        z_min = Fin zMin, z_max = Fin zMax \<rparr> (int nx) (int ny) (int nz)
             = Inr (x_coords, y_coords, z_coords) \<and>
           shape P = (length x_coords, length y_coords, length z_coords, 3) \<and>
           item P i j k 0 = x_coords ! i \<and>
           item P i j k 1 = y_coords ! j \<and>
           item P i j k 2 = z_coords ! k"
proof -
  let ?c = "map (map Fin) (box_corners xMin xMax yMin yMax zMin zMax)"
  from returnBlockPoints_item [OF corners_in_range_box, of xMin xMax yMin yMax zMin zMax nx ny nz]
  obtain P where P: "returnBlockPoints ?c (int nx) (int ny) (int nz) = Inr P"
      "shape P = (nx, ny, nz, 3)"
      "\<And>d. d < 3 \<Longrightarrow> item P i j k d = block_value ?c nx ny nz i j k d"
    using assms(13-15) by blast
  note b = block_value_box [OF assms(13-15) assms(4-9)]
  have "item P i j k 0 = linspace_vals (Fin xMin) (Fin xMax) nx ! i"
    "item P i j k 1 = linspace_vals (Fin yMin) (Fin yMax) ny ! j"
    "item P i j k 2 = linspace_vals (Fin zMin) (Fin zMax) nz ! k"
    using P(3) b(1) [OF assms(16)] b(2) b(3) [OF assms(17)] by simp_all
  with P(1,2) show ?thesis
    by (simp add: ffd_coords_nat)
qed

lemma linspace_0_2_3: "linspace_vals (Fin 0) (Fin 2) 3 ! 1 = Fin 1"
proof -
  have "(1::nat) < 3" by simp
  from linspace_vals_nth [OF this, of "Fin 0" "Fin 2"] show ?thesis
    by (simp add: linspace_y_def fsub_def rnd_eval)
qed

theorem corner_based_equals_offset_box_witness:
  "(0::real) < 2 \<and> (0::real) < 1 \<and> is_double 0 \<and> is_double 1 \<and> is_double 2 \<and>
   (2::nat) \<le> 3 \<and> (2::nat) \<le> 2 \<and> (1::nat) < 3 \<and> (1::nat) < 2 \<and>
   is_finite (linspace_vals (Fin 0) (Fin 2) 3 ! 1) \<and>
   is_finite (linspace_vals (Fin 0) (Fin 1) 2 ! 1) \<and>
   (\<exists>P x_coords y_coords z_coords.
      returnBlockPoints (map (map Fin) (box_corners 0 2 0 1 0 1)) 3 2 2 = Inr P \<and>
      ffd_coords \<lparr> x_min = Fin 0, x_max = Fin 2, y_min = Fin 0, y_max = Fin 1,
                   z_min = Fin 0, z_max = Fin 1 \<rparr> 3 2 2
        = Inr (x_coords, y_coords, z_coords) \<and>
      shape P = (length x_coords, length y_coords, length z_coords, 3) \<and>
      item P 1 1 1 0 = x_coords ! 1 \<and>
      item P 1 1 1 1 = y_coords ! 1 \<and>
      item P 1 1 1 2 = z_coords ! 1)"
proof -
  have o: "(0::real) < 2" "(0::real) < 1" by simp_all
  have d: "is_double 0" "is_double 1" "is_double 2" by (simp_all add: is_double_def rnd_eval)
  have n: "(2::nat) \<le> 3" "(2::nat) \<le> 2" "(1::nat) < 3" "(1::nat) < 2" by simp_all
  have fx: "is_finite (linspace_vals (Fin 0) (Fin 2) 3 ! 1)" unfolding linspace_0_2_3 by simp
  have "linspace_vals (Fin 0) (Fin 1) 2 ! (2 - 1) = Fin 1" by (rule linspace_vals_last [OF n(2)])
  then have fz: "is_finite (linspace_vals (Fin 0) (Fin 1) 2 ! 1)" by simp
  note r = corner_based_equals_offset_box
    [OF o(1,2,2) d(1,3,1,2,1,2) n(1,2,2,3,4,4) fx fz]
  have e: "\<exists>P x_coords y_coords z_coords.
      returnBlockPoints (map (map Fin) (box_corners 0 2 0 1 0 1)) 3 2 2 = Inr P \<and>
      ffd_coords \<lparr> x_min = Fin 0, x_max = Fin 2, y_min = Fin 0, y_max = Fin 1,
                   z_min = Fin 0, z_max = Fin 1 \<rparr> 3 2 2
        = Inr (x_coords, y_coords, z_coords) \<and>
      shape P = (length x_coords, length y_coords, length z_coords, 3) \<and>
      item P 1 1 1 0 = x_coords ! 1 \<and>
      item P 1 1 1 1 = y_coords ! 1 \<and>
      item P 1 1 1 2 = z_coords ! 1"
    using r by simp
  with o d n fx fz show ?thesis by (intro conjI)
qed

section \<open>The flattening order of the serialized grid\<close>

lemma concat_rows_nth:
  assumes "\<forall>x \<in> set xs. length (g x) = m" and "a < length xs" and "b < m"
  shows "concat (map g xs) ! (a * m + b) = g (xs ! a) ! b"
  using assms
proof (induction xs arbitrary: a)
  case Nil
  then show ?case by simp
next
  case (Cons x xs)
  show ?case
  proof (cases a)
    case 0
    with Cons.prems show ?thesis by (simp add: nth_append)
  next
    case (Suc a')
    with Cons.prems have "concat (map g xs) ! (a' * m + b) = g (xs ! a') ! b"
      by (intro Cons.IH) simp_all
    with Suc Cons.prems show ?thesis by (simp add: nth_append)
  qed
qed

lemma length_concat_rows:
  assumes "\<forall>x \<in> set xs. length (g x) = m"
  shows "length (concat (map g xs)) = length xs * m"
  using assms by (induction xs) simp_all

lemma length_flatten_kji [simp]: "length (flatten_kji nx ny nz f) = nx * ny * nz"
proof -
  have row: "\<And>k. length (concat (map (\<lambda>j. map (\<lambda>i. f i j k) [0..<nx]) [0..<ny])) = ny * nx"
    by (subst length_concat_rows [where m = nx]) simp_all
  show ?thesis
    unfolding flatten_kji_def
    by (subst length_concat_rows [where m = "ny * nx"]) (simp_all add: row mult.commute)
qed

lemma flatten_kji_nth:
  assumes "i < nx" and "j < ny" and "k < nz"
  shows "flatten_kji nx ny nz f ! (k * ny * nx + j * nx + i) = f i j k"
proof -
  have len: "\<And>k. length (concat (map (\<lambda>j. map (\<lambda>i. f i j k) [0..<nx]) [0..<ny])) = ny * nx"
    by (subst length_concat_rows [where m = nx]) simp_all
  have jn: "j * nx + i < ny * nx"
  proof -
    have "j * nx + i < j * nx + nx" using assms(1) by simp
    also have "\<dots> = (j + 1) * nx" by simp
    also have "\<dots> \<le> ny * nx" using assms(2) by (intro mult_le_mono1) simp
    finally show ?thesis .
  qed
  have "flatten_kji nx ny nz f ! (k * (ny * nx) + (j * nx + i))
          = concat (map (\<lambda>j. map (\<lambda>i. f i j ([0..<nz] ! k)) [0..<nx]) [0..<ny]) ! (j * nx + i)"
    unfolding flatten_kji_def
    using assms(3) jn by (subst concat_rows_nth [where m = "ny * nx"]) (simp_all add: len)
  also have "\<dots> = map (\<lambda>i. f i ([0..<ny] ! j) ([0..<nz] ! k)) [0..<nx] ! i"
    using assms(1,2) by (subst concat_rows_nth [where m = nx]) simp_all
  also have "\<dots> = f i j k"
    using assms by simp
  finally show ?thesis by (simp add: add.assoc mult.assoc)
qed

lemma map_flatten_kji: "map h (flatten_kji nx ny nz f) = flatten_kji nx ny nz (\<lambda>i j k. h (f i j k))"
  by (simp add: flatten_kji_def map_concat comp_def)

lemma in_set_concat_map:
  "x \<in> set (g a) \<Longrightarrow> a \<in> set xs \<Longrightarrow> x \<in> set (concat (map g xs))"
  by auto

lemma set_flatten_kji:
  "set (flatten_kji nx ny nz f) = {f i j k | i j k. i < nx \<and> j < ny \<and> k < nz}"
proof (intro set_eqI iffI)
  fix x assume "x \<in> set (flatten_kji nx ny nz f)"
  then show "x \<in> {f i j k | i j k. i < nx \<and> j < ny \<and> k < nz}"
    by (auto simp: flatten_kji_def) blast
next
  fix x assume "x \<in> {f i j k | i j k. i < nx \<and> j < ny \<and> k < nz}"
  then obtain i j k where x: "x = f i j k" "i < nx" "j < ny" "k < nz" by blast
  have "f i j k \<in> set (map (\<lambda>i. f i j k) [0..<nx])"
    using x(2) by simp
  then have "f i j k \<in> set (concat (map (\<lambda>j. map (\<lambda>i. f i j k) [0..<nx]) [0..<ny]))"
    by (rule in_set_concat_map) (use x(3) in simp)
  then have "f i j k \<in> set (flatten_kji nx ny nz f)"
    unfolding flatten_kji_def by (rule in_set_concat_map) (use x(4) in simp)
  with x(1) show "x \<in> set (flatten_kji nx ny nz f)" by simp
qed

lemma show_nat_small: "n < 10 \<Longrightarrow> show_nat n = [digit_char n]"
  by (simp add: show_nat.simps)

lemma show_nat_big: "\<not> n < 10 \<Longrightarrow> show_nat n = show_nat (n div 10) @ [digit_char (n mod 10)]"
  by (subst show_nat.simps) simp

lemma write_channel_in_shape:
  assumes "shape P = (nx, ny, nz, 3)" and "d < 3"
  shows "write_channel [P] 0 nx ny nz d =
           Inr (concat (map (\<lambda>t. t @ '' '')
                  (flatten_kji nx ny nz (\<lambda>i j k. format_f (item P i j k d)))))"
proof -
  have "list_all (\<lambda>(i, j, k). 0 < length [P] \<and> in_shape ([P] ! 0) i j k d)
          (flatten_kji nx ny nz (\<lambda>i j k. (i, j, k)))"
    using assms by (auto simp: list_all_iff set_flatten_kji in_shape_def)
  then show ?thesis
    by (simp add: write_channel_def map_flatten_kji)
qed

lemma writeFFDFile_single:
  assumes "shape P = (nx, ny, nz, 3)"
  shows "writeFFDFile 1 [int nx] [int ny] [int nz] [P] =
           Inr (''1'' @ [newline] @
                show_int (int nx) @ '' '' @ show_int (int ny) @ '' '' @ show_int (int nz) @ '' '' @
                [newline] @
                concat (map (\<lambda>t. t @ '' '')
                  (flatten_kji nx ny nz (\<lambda>i j k. format_f (item P i j k 0)))) @ [newline] @
                concat (map (\<lambda>t. t @ '' '')
                  (flatten_kji nx ny nz (\<lambda>i j k. format_f (item P i j k 1)))) @ [newline] @
                concat (map (\<lambda>t. t @ '' '')
                  (flatten_kji nx ny nz (\<lambda>i j k. format_f (item P i j k 2)))))"
  by (simp add: writeFFDFile_def write_dims_def write_block_def Let_def
      write_channel_in_shape [OF assms] show_int_def show_nat_small digit_char_def)

section \<open>Evaluating the model on concrete inputs\<close>

lemma upt_0_2: "[0..<2] = [0, 1]"
  by (simp add: eval_nat_numeral)

lemma upt_0_3: "[0..<3] = [0, 1, 2]"
  by (simp add: eval_nat_numeral)

lemma replicate_numeral_Cons: "replicate (numeral k) x = x # replicate (pred_numeral k) x"
  by (simp add: numeral_eq_Suc)

lemmas text_eval = newline_def carriage_return_def is_space_def strip_def split_def startswith_def
  text_lines_def is_digit_def digit_val_def digits_val_def digitpart_def py_float_def lower_char_def
  split_at_def float_number_def float_magnitude_def float_exponent_def pow10_def rnd_eval

lemmas format_eval = round_half_even_def pad6_def show_nat_small show_nat_big digit_char_def
  show_int_def replicate_numeral_Cons

lemmas bounds_eval = get_stl_bounds_def is_ascii_stl_def is_ascii_bytes_def
  ascii_line_step_def initial_bounds_def py_min_def py_max_def fgt_def

lemma example_stl_bounds:
  "get_stl_bounds example_stl = Inr ((Fin 0, Fin 0, Fin 0), (Fin 2, Fin 0, Fin 0))"
  by (simp add: example_stl_def bounds_eval text_eval)

lemma example_coords:
  "ffd_coords (ffd_box_bounds (Fin 0, Fin 0, Fin 0) (Fin 2, Fin 0, Fin 0) (Fin 0) (Fin 0) (Fin 0)
      None None) 3 2 2 = Inr ([Fin 0, Fin 1, Fin 2], [Fin 0, Fin 0], [Fin 0, Fin 0])"
  by (simp add: ffd_coords_def ffd_box_bounds_def override_x_def linspace_def linspace_vals_def
      linspace_y_def fsub_def Let_def upt_0_2 upt_0_3 rnd_eval)

lemma example_x_list:
  "x_list 3 2 2 [Fin 0, Fin 1, Fin 2] =
     [''0.000000'', ''1.000000'', ''2.000000'', ''0.000000'', ''1.000000'', ''2.000000'',
      ''0.000000'', ''1.000000'', ''2.000000'', ''0.000000'', ''1.000000'', ''2.000000'']"
  by (simp add: x_list_def flatten_kji_def format_eval upt_0_2 upt_0_3)

lemma example_file:
  "generate_ffd_box example_stl 3 2 2 (Fin 0) (Fin 0) (Fin 0) None None =
     Inr (''1'' @ [newline] @ ''3 2 2'' @ [newline] @
          ''0.000000 1.000000 2.000000 0.000000 1.000000 2.000000 0.000000 1.000000 2.000000 0.000000 1.000000 2.000000'' @ [newline] @
          ''0.000000 0.000000 0.000000 0.000000 0.000000 0.000000 0.000000 0.000000 0.000000 0.000000 0.000000 0.000000'' @ [newline] @
          ''0.000000 0.000000 0.000000 0.000000 0.000000 0.000000 0.000000 0.000000 0.000000 0.000000 0.000000 0.000000'' @ [newline])"
  by (simp add: generate_ffd_box_def example_stl_bounds example_coords ffd_file_text_def
      x_list_def y_list_def z_list_def flatten_kji_def format_eval upt_0_2 upt_0_3)

text \<open>
  C3.  Both serializers write the three coordinate channels as three separate flat
  sequences (one line each: all x, then all y, then all z), each of \<open>nx * ny * nz\<close> values,
  in which the value of lattice index \<open>(i, j, k)\<close> is at offset \<open>k*ny*nx + j*nx + i\<close>
  (\<open>i\<close> fastest, \<open>k\<close> slowest): for \<open>generate_ffd_box\<close> the three lists joined by spaces,
  for \<open>writeFFDFile\<close> the values of the array each followed by a space.  For the box
  with min \<open>(0,0,0)\<close>, max \<open>(2,0,0)\<close>, margins 0 and \<open>nx=3, ny=2, nz=2\<close> the coordinate
  arrays are \<open>[0,1,2]\<close>, \<open>[0,0]\<close>, \<open>[0,0]\<close>, the x channel is \<open>0 1 2\<close> four times, and
  index \<open>(1,0,0)\<close> is at offset 1.
\<close>

theorem serialized_channel_layout:
  assumes "i < nx" and "j < ny" and "k < nz" and "shape P = (nx, ny, nz, 3)"
  shows
    "ffd_file_text (int nx) (int ny) (int nz) xs ys zs =
       ''1'' @ [newline] @
       show_int (int nx) @ '' '' @ show_int (int ny) @ '' '' @ show_int (int nz) @ [newline] @
       join '' '' (x_list nx ny nz xs) @ [newline] @
       join '' '' (y_list nx ny nz ys) @ [newline] @
       join '' '' (z_list nx ny nz zs) @ [newline] \<and>
     length (x_list nx ny nz xs) = nx * ny * nz \<and>
     length (y_list nx ny nz ys) = nx * ny * nz \<and>
     length (z_list nx ny nz zs) = nx * ny * nz \<and>
     x_list nx ny nz xs ! (k * ny * nx + j * nx + i) = format_f (xs ! i) \<and>
     y_list nx ny nz ys ! (k * ny * nx + j * nx + i) = format_f (ys ! j) \<and>
     z_list nx ny nz zs ! (k * ny * nx + j * nx + i) = format_f (zs ! k) \<and>
     (\<exists>tx ty tz.
        writeFFDFile 1 [int nx] [int ny] [int nz] [P] =
          Inr (''1'' @ [newline] @
               show_int (int nx) @ '' '' @ show_int (int ny) @ '' '' @ show_int (int nz) @ '' '' @
               [newline] @
               concat (map (\<lambda>t. t @ '' '') tx) @ [newline] @
               concat (map (\<lambda>t. t @ '' '') ty) @ [newline] @
               concat (map (\<lambda>t. t @ '' '') tz)) \<and>
        length tx = nx * ny * nz \<and> length ty = nx * ny * nz \<and> length tz = nx * ny * nz \<and>
        tx ! (k * ny * nx + j * nx + i) = format_f (item P i j k 0) \<and>
        ty ! (k * ny * nx + j * nx + i) = format_f (item P i j k 1) \<and>
        tz ! (k * ny * nx + j * nx + i) = format_f (item P i j k 2)) \<and>
     ffd_coords (ffd_box_bounds (Fin 0, Fin 0, Fin 0) (Fin 2, Fin 0, Fin 0) (Fin 0) (Fin 0) (Fin 0)
        None None) 3 2 2 = Inr ([Fin 0, Fin 1, Fin 2], [Fin 0, Fin 0], [Fin 0, Fin 0]) \<and>
     x_list 3 2 2 [Fin 0, Fin 1, Fin 2] =
       [''0.000000'', ''1.000000'', ''2.000000'', ''0.000000'', ''1.000000'', ''2.000000'',
        ''0.000000'', ''1.000000'', ''2.000000'', ''0.000000'', ''1.000000'', ''2.000000''] \<and>
     (0 * 2 * 3 + 0 * 3 + 1 = (1::nat)) \<and>
     generate_ffd_box example_stl 3 2 2 (Fin 0) (Fin 0) (Fin 0) None None =
       Inr (''1'' @ [newline] @ ''3 2 2'' @ [newline] @
            ''0.000000 1.000000 2.000000 0.000000 1.000000 2.000000 0.000000 1.000000 2.000000 0.000000 1.000000 2.000000'' @ [newline] @
            ''0.000000 0.000000 0.000000 0.000000 0.000000 0.000000 0.000000 0.000000 0.000000 0.000000 0.000000 0.000000'' @ [newline] @
            ''0.000000 0.000000 0.000000 0.000000 0.000000 0.000000 0.000000 0.000000 0.000000 0.000000 0.000000 0.000000'' @ [newline])"
proof -
  have file_eq: "ffd_file_text (int nx) (int ny) (int nz) xs ys zs =
       ''1'' @ [newline] @
       show_int (int nx) @ '' '' @ show_int (int ny) @ '' '' @ show_int (int nz) @ [newline] @
       join '' '' (x_list nx ny nz xs) @ [newline] @
       join '' '' (y_list nx ny nz ys) @ [newline] @
       join '' '' (z_list nx ny nz zs) @ [newline]"
    by (simp add: ffd_file_text_def)
  have len: "length (x_list nx ny nz xs) = nx * ny * nz"
    "length (y_list nx ny nz ys) = nx * ny * nz"
    "length (z_list nx ny nz zs) = nx * ny * nz"
    by (simp_all add: x_list_def y_list_def z_list_def)
  have nth: "x_list nx ny nz xs ! (k * ny * nx + j * nx + i) = format_f (xs ! i)"
    "y_list nx ny nz ys ! (k * ny * nx + j * nx + i) = format_f (ys ! j)"
    "z_list nx ny nz zs ! (k * ny * nx + j * nx + i) = format_f (zs ! k)"
    unfolding x_list_def y_list_def z_list_def
    by (simp_all only: flatten_kji_nth [OF assms(1-3)])
  have writer: "\<exists>tx ty tz.
        writeFFDFile 1 [int nx] [int ny] [int nz] [P] =
          Inr (''1'' @ [newline] @
               show_int (int nx) @ '' '' @ show_int (int ny) @ '' '' @ show_int (int nz) @ '' '' @
               [newline] @
               concat (map (\<lambda>t. t @ '' '') tx) @ [newline] @
               concat (map (\<lambda>t. t @ '' '') ty) @ [newline] @
               concat (map (\<lambda>t. t @ '' '') tz)) \<and>
        length tx = nx * ny * nz \<and> length ty = nx * ny * nz \<and> length tz = nx * ny * nz \<and>
        tx ! (k * ny * nx + j * nx + i) = format_f (item P i j k 0) \<and>
        ty ! (k * ny * nx + j * nx + i) = format_f (item P i j k 1) \<and>
        tz ! (k * ny * nx + j * nx + i) = format_f (item P i j k 2)"
    apply (rule exI [of _ "flatten_kji nx ny nz (\<lambda>i j k. format_f (item P i j k 0))"])
    apply (rule exI [of _ "flatten_kji nx ny nz (\<lambda>i j k. format_f (item P i j k 1))"])
    apply (rule exI [of _ "flatten_kji nx ny nz (\<lambda>i j k. format_f (item P i j k 2))"])
    apply (simp only: writeFFDFile_single [OF assms(4)] flatten_kji_nth [OF assms(1-3)]
        length_flatten_kji)
    done
  have idx: "0 * 2 * 3 + 0 * 3 + 1 = (1::nat)" by simp
  show ?thesis
    using file_eq len nth writer example_coords example_x_list idx example_file
    by (intro conjI)
qed

theorem serialized_channel_layout_witness:
  "(1::nat) < 3 \<and> (0::nat) < 2 \<and> shape (np_zeros4 3 2 2 3) = (3, 2, 2, 3) \<and>
   length (x_list 3 2 2 [Fin 0, Fin 1, Fin 2]) = 3 * 2 * 2 \<and>
   x_list 3 2 2 [Fin 0, Fin 1, Fin 2] ! (0 * 2 * 3 + 0 * 3 + 1) = format_f ([Fin 0, Fin 1, Fin 2] ! 1) \<and>
   (\<exists>tx ty tz.
      writeFFDFile 1 [3] [2] [2] [np_zeros4 3 2 2 3] =
        Inr (''1'' @ [newline] @ show_int 3 @ '' '' @ show_int 2 @ '' '' @ show_int 2 @ '' '' @
             [newline] @
             concat (map (\<lambda>t. t @ '' '') tx) @ [newline] @
             concat (map (\<lambda>t. t @ '' '') ty) @ [newline] @
             concat (map (\<lambda>t. t @ '' '') tz)) \<and>
      length tx = 3 * 2 * 2 \<and>
      tx ! (0 * 2 * 3 + 0 * 3 + 1) = format_f (item (np_zeros4 3 2 2 3) 1 0 0 0))"
proof -
  have h: "(1::nat) < 3" "(0::nat) < 2" "shape (np_zeros4 3 2 2 3) = (3, 2, 2, 3)"
    by (simp_all add: np_zeros4_def)
  from serialized_channel_layout [OF h(1) h(2) h(2) h(3), of "[Fin 0, Fin 1, Fin 2]" "[]" "[]"]
  show ?thesis using h by auto
qed

section \<open>What the generators accept\<close>

lemma generate_ffd_box_result:
  assumes "get_stl_bounds stl = Inr (mn, mx)"
  shows "generate_ffd_box stl nx ny nz ox oy oz xs xe =
           (if nx < 0 \<or> ny < 0 \<or> nz < 0 then Inl ValueError
            else Inr (ffd_file_text nx ny nz
                   (linspace_vals (x_min (ffd_box_bounds mn mx ox oy oz xs xe))
                      (x_max (ffd_box_bounds mn mx ox oy oz xs xe)) (nat nx))
                   (linspace_vals (y_min (ffd_box_bounds mn mx ox oy oz xs xe))
                      (y_max (ffd_box_bounds mn mx ox oy oz xs xe)) (nat ny))
                   (linspace_vals (z_min (ffd_box_bounds mn mx ox oy oz xs xe))
                      (z_max (ffd_box_bounds mn mx ox oy oz xs xe)) (nat nz))))"
  using assms by (simp add: generate_ffd_box_def ffd_coords_def linspace_def)

lemma returnBlockPoints_result:
  assumes "corners_in_range c"
  shows "(case returnBlockPoints c nx ny nz of
            Inl e \<Rightarrow> e = ValueError \<and> (nx < 0 \<or> ny < 0 \<or> nz < 0)
          | Inr P \<Rightarrow> 0 \<le> nx \<and> 0 \<le> ny \<and> 0 \<le> nz \<and> shape P = (nat nx, nat ny, nat nz, 3))"
  using assms by (simp add: returnBlockPoints_def fold_block_idim_step np_zeros4_def)

text \<open>The finite bounds of the box are doubles.\<close>

lemma fsub_finite_left: "is_finite (fsub hi (Fin a)) \<Longrightarrow> \<exists>b. hi = Fin b"
  by (cases hi) (simp_all add: fsub_def)

lemma linspace_first:
  assumes "lo = Fin a" and "is_double a" and "is_finite (fsub hi lo)" and "0 < n"
  shows "linspace_vals lo hi n ! 0 = lo"
proof -
  from fsub_finite_left [of hi a] assms(1,3) obtain b where b: "hi = Fin b" by auto
  from linspace_vals_first [OF assms(2) _ assms(4), of b] assms(1,3) b show ?thesis by simp
qed

lemma linspace_vals_one:
  assumes "lo = Fin a" and "is_double a" and "is_finite (fsub hi lo)"
  shows "linspace_vals lo hi 1 = [lo]"
proof -
  have "linspace_vals lo hi 1 = [linspace_vals lo hi 1 ! 0]"
    by (simp add: list_eq_iff_nth_eq)
  also have "linspace_vals lo hi 1 ! 0 = lo"
    by (rule linspace_first [OF assms]) simp
  finally show ?thesis .
qed

lemma box_bounds_double:
  "x_min (ffd_box_bounds mn mx ox oy oz xs xe) = Fin a \<Longrightarrow> is_double a"
  "x_max (ffd_box_bounds mn mx ox oy oz xs xe) = Fin a \<Longrightarrow> is_double a"
  "y_min (ffd_box_bounds mn mx ox oy oz xs xe) = Fin a \<Longrightarrow> is_double a"
  "y_max (ffd_box_bounds mn mx ox oy oz xs xe) = Fin a \<Longrightarrow> is_double a"
  "z_min (ffd_box_bounds mn mx ox oy oz xs xe) = Fin a \<Longrightarrow> is_double a"
  "z_max (ffd_box_bounds mn mx ox oy oz xs xe) = Fin a \<Longrightarrow> is_double a"
  by (auto simp: ffd_box_bounds_def Let_def dest: fsub_is_double fadd_is_double)

text \<open>
  C4, amended.  An axis count below 2 is not rejected with a \<open>UsageError\<close>.  Where the
  bounds reader succeeds, \<open>generate_ffd_box\<close> fails exactly when some count is negative,
  with the \<open>ValueError\<close> of \<open>numpy.linspace\<close>, and otherwise writes the grid of the three
  \<open>linspace\<close> arrays of its box; \<open>returnBlockPoints\<close> (on 8 x 3 corners) likewise fails
  exactly when some count is negative, with \<open>ValueError\<close>, and otherwise returns an array
  of shape \<open>(nx, ny, nz, 3)\<close>.  Along an axis of the box a count of 0 gives no value, and
  a count of 1 gives the single value \<open>min\<close> of that axis whenever \<open>min\<close> is finite and
  \<open>max - min\<close> does not overflow in double arithmetic.
\<close>

theorem small_counts_accepted:
  assumes "get_stl_bounds stl = Inr (mn, mx)" and "corners_in_range c"
    and "B = ffd_box_bounds mn mx ox oy oz xs xe"
  shows
    "generate_ffd_box stl nx ny nz ox oy oz xs xe =
       (if nx < 0 \<or> ny < 0 \<or> nz < 0 then Inl ValueError
        else Inr (ffd_file_text nx ny nz
               (linspace_vals (x_min B) (x_max B) (nat nx))
               (linspace_vals (y_min B) (y_max B) (nat ny))
               (linspace_vals (z_min B) (z_max B) (nat nz)))) \<and>
     (case returnBlockPoints c nx ny nz of
        Inl e \<Rightarrow> e = ValueError \<and> (nx < 0 \<or> ny < 0 \<or> nz < 0)
      | Inr P \<Rightarrow> 0 \<le> nx \<and> 0 \<le> ny \<and> 0 \<le> nz \<and> shape P = (nat nx, nat ny, nat nz, 3)) \<and>
     linspace_vals (x_min B) (x_max B) 0 = [] \<and>
     linspace_vals (y_min B) (y_max B) 0 = [] \<and>
     linspace_vals (z_min B) (z_max B) 0 = [] \<and>
     (is_finite (x_min B) \<and> is_finite (fsub (x_max B) (x_min B)) \<longrightarrow>
        linspace_vals (x_min B) (x_max B) 1 = [x_min B]) \<and>
     (is_finite (y_min B) \<and> is_finite (fsub (y_max B) (y_min B)) \<longrightarrow>
        linspace_vals (y_min B) (y_max B) 1 = [y_min B]) \<and>
     (is_finite (z_min B) \<and> is_finite (fsub (z_max B) (z_min B)) \<longrightarrow>
        linspace_vals (z_min B) (z_max B) 1 = [z_min B])"
proof -
  have one: "linspace_vals lo hi 1 = [lo]"
    if "is_finite lo" and "is_finite (fsub hi lo)" and "\<And>a. lo = Fin a \<Longrightarrow> is_double a"
    for lo hi
  proof -
    from is_finite_Fin [OF that(1)] obtain a where a: "lo = Fin a" ..
    from linspace_vals_one [OF a that(3) [OF a] that(2)] show ?thesis .
  qed
  have x: "is_finite (x_min B) \<and> is_finite (fsub (x_max B) (x_min B)) \<longrightarrow>
        linspace_vals (x_min B) (x_max B) 1 = [x_min B]"
    using one [of "x_min B" "x_max B"] box_bounds_double(1) [of mn mx ox oy oz xs xe]
    unfolding assms(3) by blast
  have y: "is_finite (y_min B) \<and> is_finite (fsub (y_max B) (y_min B)) \<longrightarrow>
        linspace_vals (y_min B) (y_max B) 1 = [y_min B]"
    using one [of "y_min B" "y_max B"] box_bounds_double(3) [of mn mx ox oy oz xs xe]
    unfolding assms(3) by blast
  have z: "is_finite (z_min B) \<and> is_finite (fsub (z_max B) (z_min B)) \<longrightarrow>
        linspace_vals (z_min B) (z_max B) 1 = [z_min B]"
    using one [of "z_min B" "z_max B"] box_bounds_double(5) [of mn mx ox oy oz xs xe]
    unfolding assms(3) by blast
  show ?thesis
    using generate_ffd_box_result [OF assms(1), of nx ny nz ox oy oz xs xe]
      returnBlockPoints_result [OF assms(2), of nx ny nz] x y z
    unfolding assms(3) by (simp add: linspace_vals_0)
qed

lemma example_box:
  "ffd_box_bounds (Fin 0, Fin 0, Fin 0) (Fin 2, Fin 0, Fin 0) (Fin 0) (Fin 0) (Fin 0) None None =
     \<lparr> x_min = Fin 0, x_max = Fin 2, y_min = Fin 0, y_max = Fin 0, z_min = Fin 0,
       z_max = Fin 0 \<rparr>"
  by (simp add: ffd_box_bounds_def override_x_def fsub_def rnd_eval)

theorem small_counts_accepted_witness:
  "get_stl_bounds example_stl = Inr ((Fin 0, Fin 0, Fin 0), (Fin 2, Fin 0, Fin 0)) \<and>
   corners_in_range (map (map Fin) (box_corners 0 2 0 1 0 1)) \<and>
   generate_ffd_box example_stl 1 2 2 (Fin 0) (Fin 0) (Fin 0) None None =
     Inr (ffd_file_text 1 2 2
            (linspace_vals (Fin 0) (Fin 2) 1) (linspace_vals (Fin 0) (Fin 0) 2)
            (linspace_vals (Fin 0) (Fin 0) 2)) \<and>
   (case returnBlockPoints (map (map Fin) (box_corners 0 2 0 1 0 1)) 1 2 2 of
      Inl e \<Rightarrow> False
    | Inr P \<Rightarrow> shape P = (1, 2, 2, 3)) \<and>
   is_finite (Fin 0) \<and> is_finite (fsub (Fin 2) (Fin 0)) \<and>
   linspace_vals (Fin 0) (Fin 2) 1 = [Fin 0]"
proof -
  note h = example_stl_bounds corners_in_range_box [of 0 2 0 1 0 1]
  have f: "is_finite (Fin 0)" "is_finite (fsub (Fin 2) (Fin 0))"
    by (simp_all add: fsub_def rnd_eval)
  from small_counts_accepted [OF h refl, of 1 2 2 "Fin 0" "Fin 0" "Fin 0" None None]
  show ?thesis
    unfolding example_box using h f by (auto split: sum.splits)
qed

text \<open>The claim as stated fails: a request with \<open>nx = 1\<close> is not rejected, it writes a
  grid with a single value along x.\<close>

theorem count_one_not_rejected:
  "generate_ffd_box example_stl 1 2 2 (Fin 0) (Fin 0) (Fin 0) None None =
     Inr (''1'' @ [newline] @ ''1 2 2'' @ [newline] @
          ''0.000000 0.000000 0.000000 0.000000'' @ [newline] @
          ''0.000000 0.000000 0.000000 0.000000'' @ [newline] @
          ''0.000000 0.000000 0.000000 0.000000'' @ [newline]) \<and>
   generate_ffd_box example_stl 1 2 2 (Fin 0) (Fin 0) (Fin 0) None None \<noteq> Inl UsageError"
  by (simp add: generate_ffd_box_def example_stl_bounds ffd_coords_def ffd_box_bounds_def
      override_x_def linspace_def linspace_vals_def linspace_y_def fsub_def Let_def
      ffd_file_text_def x_list_def y_list_def z_list_def flatten_kji_def format_eval upt_0_2
      rnd_eval)

section \<open>The box of the offset-box generator\<close>

lemma generate_ffd_box_nat:
  assumes "get_stl_bounds stl = Inr (mn, mx)"
  shows "generate_ffd_box stl (int nx) (int ny) (int nz) ox oy oz xs xe =
           Inr (ffd_file_text (int nx) (int ny) (int nz)
                  (linspace_vals (x_min (ffd_box_bounds mn mx ox oy oz xs xe))
                     (x_max (ffd_box_bounds mn mx ox oy oz xs xe)) nx)
                  (linspace_vals (y_min (ffd_box_bounds mn mx ox oy oz xs xe))
                     (y_max (ffd_box_bounds mn mx ox oy oz xs xe)) ny)
                  (linspace_vals (z_min (ffd_box_bounds mn mx ox oy oz xs xe))
                     (z_max (ffd_box_bounds mn mx ox oy oz xs xe)) nz))"
  using generate_ffd_box_result [OF assms, of "int nx" "int ny" "int nz"] by simp

text \<open>
  C5, amended.  The offset-box generator does not examine the box it has computed.  For
  every surface the bounds reader accepts, whatever box results from the overrides and
  margins --- so also a zero-size or an inverted one --- and all counts \<open>\<ge> 2\<close>, it
  writes a grid of \<open>nx\<close>, \<open>ny\<close> and \<open>nz\<close> values along the axes, those of
  \<open>numpy.linspace(min, max, n)\<close>: the last value of an axis is its \<open>max\<close>, and the first
  one is its \<open>min\<close> whenever \<open>min\<close> is finite and \<open>max - min\<close> does not overflow in double
  arithmetic.
\<close>

theorem degenerate_box_accepted:
  assumes "get_stl_bounds stl = Inr (mn, mx)"
    and "B = ffd_box_bounds mn mx ox oy oz xs xe"
    and "x_coords = linspace_vals (x_min B) (x_max B) nx"
    and "y_coords = linspace_vals (y_min B) (y_max B) ny"
    and "z_coords = linspace_vals (z_min B) (z_max B) nz"
    and "2 \<le> nx" and "2 \<le> ny" and "2 \<le> nz"
  shows "generate_ffd_box stl (int nx) (int ny) (int nz) ox oy oz xs xe =
           Inr (ffd_file_text (int nx) (int ny) (int nz) x_coords y_coords z_coords) \<and>
         length x_coords = nx \<and> length y_coords = ny \<and> length z_coords = nz \<and>
         x_coords ! (nx - 1) = x_max B \<and>
         y_coords ! (ny - 1) = y_max B \<and>
         z_coords ! (nz - 1) = z_max B \<and>
         (is_finite (x_min B) \<and> is_finite (fsub (x_max B) (x_min B)) \<longrightarrow>
            x_coords ! 0 = x_min B) \<and>
         (is_finite (y_min B) \<and> is_finite (fsub (y_max B) (y_min B)) \<longrightarrow>
            y_coords ! 0 = y_min B) \<and>
         (is_finite (z_min B) \<and> is_finite (fsub (z_max B) (z_min B)) \<longrightarrow>
            z_coords ! 0 = z_min B)"
proof -
  have first: "linspace_vals lo hi n ! 0 = lo"
    if "is_finite lo" and "is_finite (fsub hi lo)" and "\<And>a. lo = Fin a \<Longrightarrow> is_double a"
      and "2 \<le> n" for lo hi n
  proof -
    from is_finite_Fin [OF that(1)] obtain a where a: "lo = Fin a" ..
    have "0 < n" using that(4) by simp
    from linspace_first [OF a that(3) [OF a] that(2) this] show ?thesis .
  qed
  have gen: "generate_ffd_box stl (int nx) (int ny) (int nz) ox oy oz xs xe =
           Inr (ffd_file_text (int nx) (int ny) (int nz) x_coords y_coords z_coords)"
    unfolding generate_ffd_box_nat [OF assms(1)] assms(2-5) by (rule refl)
  have len: "length x_coords = nx" "length y_coords = ny" "length z_coords = nz"
    unfolding assms(3-5) by simp_all
  have last: "x_coords ! (nx - 1) = x_max B" "y_coords ! (ny - 1) = y_max B"
    "z_coords ! (nz - 1) = z_max B"
    unfolding assms(3-5)
    by (rule linspace_vals_last [OF assms(6)], rule linspace_vals_last [OF assms(7)],
        rule linspace_vals_last [OF assms(8)])
  have x: "is_finite (x_min B) \<and> is_finite (fsub (x_max B) (x_min B)) \<longrightarrow>
            x_coords ! 0 = x_min B"
    using first [of "x_min B" "x_max B" nx, OF _ _ _ assms(6)]
      box_bounds_double(1) [of mn mx ox oy oz xs xe]
    unfolding assms(2,3) by blast
  have y: "is_finite (y_min B) \<and> is_finite (fsub (y_max B) (y_min B)) \<longrightarrow>
            y_coords ! 0 = y_min B"
    using first [of "y_min B" "y_max B" ny, OF _ _ _ assms(7)]
      box_bounds_double(3) [of mn mx ox oy oz xs xe]
    unfolding assms(2,4) by blast
  have z: "is_finite (z_min B) \<and> is_finite (fsub (z_max B) (z_min B)) \<longrightarrow>
            z_coords ! 0 = z_min B"
    using first [of "z_min B" "z_max B" nz, OF _ _ _ assms(8)]
      box_bounds_double(5) [of mn mx ox oy oz xs xe]
    unfolding assms(2,5) by blast
  show ?thesis
    using gen len last x y z by (intro conjI)
qed

lemma inverted_box:
  "ffd_box_bounds (Fin 0, Fin 0, Fin 0) (Fin 2, Fin 0, Fin 0) (Fin 0) (Fin 0) (Fin 0)
     (Some (Fin 5)) (Some (Fin 1)) =
     \<lparr> x_min = Fin 5, x_max = Fin 1, y_min = Fin 0, y_max = Fin 0, z_min = Fin 0,
       z_max = Fin 0 \<rparr>"
  by (simp add: ffd_box_bounds_def override_x_def fsub_def rnd_eval)

theorem degenerate_box_accepted_witness:
  "get_stl_bounds example_stl = Inr ((Fin 0, Fin 0, Fin 0), (Fin 2, Fin 0, Fin 0)) \<and>
   (2::nat) \<le> 3 \<and> (2::nat) \<le> 2 \<and>
   is_finite (Fin 5) \<and> is_finite (fsub (Fin 1) (Fin 5)) \<and>
   is_finite (Fin 0) \<and> is_finite (fsub (Fin 0) (Fin 0)) \<and>
   generate_ffd_box example_stl 3 2 2 (Fin 0) (Fin 0) (Fin 0) (Some (Fin 5)) (Some (Fin 1)) =
     Inr (ffd_file_text 3 2 2 (linspace_vals (Fin 5) (Fin 1) 3)
            (linspace_vals (Fin 0) (Fin 0) 2) (linspace_vals (Fin 0) (Fin 0) 2)) \<and>
   linspace_vals (Fin 5) (Fin 1) 3 ! 2 = Fin 1 \<and>
   linspace_vals (Fin 5) (Fin 1) 3 ! 0 = Fin 5 \<and>
   linspace_vals (Fin 0) (Fin 0) 2 ! 1 = Fin 0 \<and>
   linspace_vals (Fin 0) (Fin 0) 2 ! 0 = Fin 0"
proof -
  have n: "(2::nat) \<le> 3" "(2::nat) \<le> 2" by simp_all
  have f: "is_finite (Fin 5)" "is_finite (fsub (Fin 1) (Fin 5))"
    "is_finite (Fin 0)" "is_finite (fsub (Fin 0) (Fin 0))"
    by (simp_all add: fsub_def rnd_eval)
  from degenerate_box_accepted [OF example_stl_bounds refl refl refl refl n(1,2,2),
      of "Fin 0" "Fin 0" "Fin 0" "Some (Fin 5)" "Some (Fin 1)"]
  show ?thesis
    unfolding inverted_box using example_stl_bounds n f by simp
qed

text \<open>The claim as stated fails: the box from 5 down to 1 along x, of size zero along y
  and z, is not rejected; the grid runs 5, 3, 1 along x.\<close>

theorem inverted_box_not_rejected:
  "generate_ffd_box example_stl 3 2 2 (Fin 0) (Fin 0) (Fin 0) (Some (Fin 5)) (Some (Fin 1)) =
     Inr (''1'' @ [newline] @ ''3 2 2'' @ [newline] @
          ''5.000000 3.000000 1.000000 5.000000 3.000000 1.000000 5.000000 3.000000 1.000000 5.000000 3.000000 1.000000'' @ [newline] @
          ''0.000000 0.000000 0.000000 0.000000 0.000000 0.000000 0.000000 0.000000 0.000000 0.000000 0.000000 0.000000'' @ [newline] @
          ''0.000000 0.000000 0.000000 0.000000 0.000000 0.000000 0.000000 0.000000 0.000000 0.000000 0.000000 0.000000'' @ [newline])"
  by (simp add: generate_ffd_box_def example_stl_bounds ffd_coords_def ffd_box_bounds_def
      override_x_def linspace_def linspace_vals_def linspace_y_def fsub_def Let_def
      ffd_file_text_def x_list_def y_list_def z_list_def flatten_kji_def format_eval
      upt_0_2 upt_0_3 rnd_eval)

section \<open>The overrides of the x range\<close>




section \<open>Running minimum and maximum\<close>





lemma fle_PInf: "c \<noteq> NaN \<Longrightarrow> fle c PInf"
  by (cases c) (auto simp: fle_def)

lemma fle_NInf: "c \<noteq> NaN \<Longrightarrow> fle NInf c"
  by (cases c) (auto simp: fle_def)








section \<open>The bounds reader reads the vertices of the file\<close>

subsection \<open>Text\<close>



subsection \<open>Binary\<close>










subsection \<open>Either encoding\<close>



section \<open>The bounding box of a surface\<close>











section \<open>The order of the two corners\<close>












section \<open>Truncated binary files\<close>

lemma binary_vertices_None: "(binary_vertices file = None) = (\<not> vertex_data_complete file)"
  by (simp add: binary_vertices_def)






end
